theory Spec2Isabelle
  imports Main "HOL-Library.Word"
begin

section \<open>Duty-cycling MAC for leaf nodes (gnrc\_netdev2\_duty\_leaf.c)\<close>

text \<open>
  A shallow embedding of \<^verbatim>\<open>sys/net/gnrc/link_layer/dutymac/gnrc_netdev2_duty_leaf.c\<close>.
  The module-level globals of the C file are the fields of one record, every function of
  the file takes that record and returns the updated one, and the calls into code outside
  the file (message passing, packet buffer, retry/CSMA layer, radio driver) are recorded in
  log fields of the same record. A failed \<^verbatim>\<open>assert\<close>, a read behind the end of
  \<^verbatim>\<open>pkt_queue\<close> and a shift by 32 or more are error values.
\<close>

subsection \<open>Types\<close>

type_synonym uint8_t = "8 word"
type_synonym uint16_t = "16 word"
type_synonym uint32_t = "32 word"

text \<open>A packet pointer (\<^verbatim>\<open>gnrc_pktsnip_t *\<close>); \<^verbatim>\<open>NULL\<close> is 0.\<close>

type_synonym pkt_ptr = nat

definition NULL :: pkt_ptr where
  "NULL = 0"

datatype error = AssertFailed | OutOfBounds | UndefinedShift

datatype netopt_enable_t = NETOPT_DISABLE | NETOPT_ENABLE

text \<open>
  Modelled from the spec: the declaration of \<^verbatim>\<open>netopt_state_t\<close> (net/netopt.h) is not
  part of the sources at hand; the spec names the values of the STATE option that the
  core uses as SLEEP, IDLE and RX.
\<close>

datatype netopt_state_t = NETOPT_STATE_SLEEP | NETOPT_STATE_IDLE | NETOPT_STATE_RX

datatype dutycycle_state_t =
    DUTY_INIT
  | DUTY_SLEEP
  | DUTY_TX_BEACON
  | DUTY_TX_DATA
  | DUTY_TX_DATA_BEFORE_BEACON
  | DUTY_LISTEN

text \<open>
  The events of the driver that \<^verbatim>\<open>_event_cb\<close> tells apart; every other value of
  \<^verbatim>\<open>netdev2_event_t\<close> takes the \<^verbatim>\<open>default\<close> branch.
\<close>

datatype netdev2_event_t =
    NETDEV2_EVENT_ISR
  | NETDEV2_EVENT_RX_PENDING
  | NETDEV2_EVENT_RX_COMPLETE
  | NETDEV2_EVENT_TX_COMPLETE_PENDING
  | NETDEV2_EVENT_TX_COMPLETE
  | NETDEV2_EVENT_TX_MEDIUM_BUSY
  | NETDEV2_EVENT_TX_NOACK
  | NETDEV2_EVENT_OTHER

text \<open>
  \<^verbatim>\<open>msg_t\<close> as the queue functions use it: the sender, the 16-bit type and the pointer
  in \<^verbatim>\<open>content\<close>.
\<close>

record msg_t =
  sender_pid :: uint16_t
  type :: uint16_t
  content_ptr :: pkt_ptr

text \<open>The option of a SET request: the duty-cycle switch, or anything else.\<close>

datatype netapi_opt = NETOPT_DUTYCYCLE netopt_enable_t | NETOPT_OTHER

text \<open>
  A message in the mailbox of the MAC thread. The numeric values of the message types are
  defined in headers outside the file; the constructor stands for the branch of
  \<^verbatim>\<open>switch (msg.type)\<close> that the message takes. A SND message carries the whole
  \<^verbatim>\<open>msg_t\<close>, since \<^verbatim>\<open>msg_queue_add\<close> copies its fields.
\<close>

datatype mac_msg =
    GNRC_NETDEV2_DUTYCYCLE_MSG_TYPE_EVENT
  | GNRC_NETDEV2_DUTYCYCLE_MSG_TYPE_REMOVE_QUEUE
  | GNRC_NETDEV2_DUTYCYCLE_MSG_TYPE_CHECK_QUEUE
  | GNRC_NETDEV2_DUTYCYCLE_MSG_TYPE_LINK_RETRANSMIT pkt_ptr
  | NETDEV2_MSG_TYPE_EVENT
  | GNRC_NETAPI_MSG_TYPE_SND msg_t
  | GNRC_NETAPI_MSG_TYPE_SET netapi_opt
  | GNRC_NETAPI_MSG_TYPE_GET
  | MSG_TYPE_UNKNOWN

text \<open>A call of \<^verbatim>\<open>dev->driver->set\<close>.\<close>

datatype driver_set = SET_STATE netopt_state_t | SET_SRC_LEN | SET_OTHER

text \<open>A call of one of the three send functions of the device, made on LINK\_RETRANSMIT.\<close>

datatype driver_send = SEND_BEACON | RESEND_WITHOUT_RELEASE pkt_ptr | SEND_WITHOUT_RELEASE pkt_ptr

text \<open>
  The compile-time constants \<^verbatim>\<open>DUTYCYCLE_SLEEP_INTERVAL_MIN\<close>,
  \<^verbatim>\<open>DUTYCYCLE_SLEEP_INTERVAL_MAX\<close> and \<^verbatim>\<open>DUTYCYCLE_WAKEUP_INTERVAL\<close> come from the
  build configuration, which is not part of the file: they are parameters, read as
  32-bit unsigned values like the \<^verbatim>\<open>uint32_t interval\<close> they are assigned to.
\<close>

record config =
  DUTYCYCLE_SLEEP_INTERVAL_MIN :: uint32_t
  DUTYCYCLE_SLEEP_INTERVAL_MAX :: uint32_t
  DUTYCYCLE_WAKEUP_INTERVAL :: uint32_t

definition NETDEV2_PKT_QUEUE_SIZE :: nat where
  "NETDEV2_PKT_QUEUE_SIZE = 128"

subsection \<open>The state\<close>

text \<open>
  The globals of the file, then the log fields: \<open>mbox\<close> the messages sent to the MAC
  thread, \<open>submitted\<close> the first argument of every \<^verbatim>\<open>send_with_retries\<close>,
  \<open>released\<close> the argument of every \<^verbatim>\<open>gnrc_pktbuf_release\<close>, \<open>delivered\<close> the packets
  dispatched to the upper layer, \<open>driver_sets\<close> and \<open>driver_sends\<close> the calls into the
  radio driver, \<open>replies\<close> the value of every \<^verbatim>\<open>msg_reply\<close>. The timer is \<open>None\<close> when it
  is not set and \<open>Some t\<close> when it is set to fire after \<open>t\<close>. The array \<^verbatim>\<open>pkt_queue\<close> is
  a function of the index; the functions below check the index against
  \<^verbatim>\<open>NETDEV2_PKT_QUEUE_SIZE\<close> where the C code could leave the array.
\<close>

record mac =
  sleep_interval_shift :: uint8_t
  dutycycling :: netopt_enable_t
  dutycycle_state :: dutycycle_state_t
  timer :: "uint32_t option"
  pending_num :: uint8_t
  radio_busy :: bool
  additional_wakeup :: bool
  retry_rexmit :: bool
  sending_beacon :: bool
  irq_pending :: bool
  beacon_pending :: bool
  pkt_queue :: "nat \<Rightarrow> msg_t"
  mbox :: "mac_msg list"
  submitted :: "pkt_ptr list"
  released :: "pkt_ptr list"
  delivered :: "pkt_ptr list"
  driver_sets :: "driver_set list"
  driver_sends :: "driver_send list"
  replies :: "int list"

text \<open>
  The initial values of the globals, with the packet queue as the thread leaves it
  before its event loop (\<^verbatim>\<open>sender_pid\<close> and \<^verbatim>\<open>type\<close> of every entry set to 0; the array
  is static, so the pointer is \<^verbatim>\<open>NULL\<close>).
\<close>

definition mac_init :: mac where
  "mac_init = \<lparr>
     sleep_interval_shift = 0,
     dutycycling = NETOPT_DISABLE,
     dutycycle_state = DUTY_INIT,
     timer = None,
     pending_num = 0,
     radio_busy = False,
     additional_wakeup = False,
     retry_rexmit = False,
     sending_beacon = False,
     irq_pending = False,
     beacon_pending = False,
     pkt_queue = (\<lambda>i. \<lparr>sender_pid = 0, type = 0, content_ptr = NULL\<rparr>),
     mbox = [],
     submitted = [],
     released = [],
     delivered = [],
     driver_sets = [],
     driver_sends = [],
     replies = [] \<rparr>"

text \<open>What the environment answers during one step of the MAC thread or one event.\<close>

record event_env =
  csma_send_failed :: bool
  retry_send_failed :: bool
  recv_pkt :: pkt_ptr
  dispatch_receive :: bool

record env =
  get_state :: "netopt_state_t option"
  isr_events :: "(netdev2_event_t \<times> event_env) list"
  send_res :: int
  retransmit_env :: event_env
  driver_res :: int
  random_uint32 :: uint32_t

subsection \<open>Sleep interval\<close>

definition shift_left :: "uint32_t \<Rightarrow> uint8_t \<Rightarrow> error + uint32_t" where
  "shift_left x n = (if unat n < 32 then Inr (push_bit (unat n) x) else Inl UndefinedShift)"

definition reset_sleep_interval :: "mac \<Rightarrow> mac" where
  "reset_sleep_interval s = s\<lparr>sleep_interval_shift := 0\<rparr>"

definition backoff_sleep_interval :: "config \<Rightarrow> mac \<Rightarrow> error + mac" where
  "backoff_sleep_interval c s =
     (case shift_left (DUTYCYCLE_SLEEP_INTERVAL_MIN c) (sleep_interval_shift s) of
        Inl e \<Rightarrow> Inl e
      | Inr interval \<Rightarrow>
          if interval < DUTYCYCLE_SLEEP_INTERVAL_MAX c then
            (if interval \<le> push_bit 1 interval
             then Inr (s\<lparr>sleep_interval_shift := sleep_interval_shift s + 1\<rparr>)
             else Inl AssertFailed)
          else Inr s)"

definition get_sleep_interval :: "config \<Rightarrow> mac \<Rightarrow> error + uint32_t" where
  "get_sleep_interval c s =
     (case shift_left (DUTYCYCLE_SLEEP_INTERVAL_MIN c) (sleep_interval_shift s) of
        Inl e \<Rightarrow> Inl e
      | Inr interval \<Rightarrow>
          Inr (if DUTYCYCLE_SLEEP_INTERVAL_MAX c < interval
               then DUTYCYCLE_SLEEP_INTERVAL_MAX c else interval))"

subsection \<open>Effects on the outside\<close>

definition msg_send :: "mac_msg \<Rightarrow> mac \<Rightarrow> mac" where
  "msg_send m s = s\<lparr>mbox := mbox s @ [m]\<rparr>"

definition gnrc_pktbuf_release :: "pkt_ptr \<Rightarrow> mac \<Rightarrow> mac" where
  "gnrc_pktbuf_release p s = s\<lparr>released := released s @ [p]\<rparr>"

definition send_with_retries :: "pkt_ptr \<Rightarrow> mac \<Rightarrow> mac" where
  "send_with_retries p s = s\<lparr>submitted := submitted s @ [p]\<rparr>"

definition driver_set_call :: "driver_set \<Rightarrow> mac \<Rightarrow> mac" where
  "driver_set_call x s = s\<lparr>driver_sets := driver_sets s @ [x]\<rparr>"

definition xtimer_set :: "uint32_t \<Rightarrow> mac \<Rightarrow> mac" where
  "xtimer_set t s = s\<lparr>timer := Some t\<rparr>"

definition xtimer_remove :: "mac \<Rightarrow> mac" where
  "xtimer_remove s = s\<lparr>timer := None\<rparr>"

subsection \<open>The FIFO queue\<close>

text \<open>\<^verbatim>\<open>msg_queue_add\<close> returns 1 when it stored the message and 0 when the queue is full.\<close>

definition msg_queue_add :: "msg_t \<Rightarrow> mac \<Rightarrow> int \<times> mac" where
  "msg_queue_add msg s =
     (if unat (pending_num s) < NETDEV2_PKT_QUEUE_SIZE then
        (1, s\<lparr>pkt_queue := (pkt_queue s)
                  (unat (pending_num s) :=
                     (pkt_queue s (unat (pending_num s)))
                       \<lparr>sender_pid := sender_pid msg, type := type msg,
                        content_ptr := content_ptr msg\<rparr>),
               pending_num := pending_num s + 1\<rparr>)
      else (0, s))"

text \<open>
  The loop of \<^verbatim>\<open>msg_queue_remove_head\<close>, from index \<open>i\<close>: entry \<open>i + 1\<close> is copied to
  entry \<open>i\<close> while \<open>i < n\<close>, and the loop breaks after copying an entry whose sender and
  type are both 0. Reading entry \<open>i + 1\<close> behind the end of the array is an error.
\<close>

function queue_shift :: "nat \<Rightarrow> nat \<Rightarrow> (nat \<Rightarrow> msg_t) \<Rightarrow> error + (nat \<Rightarrow> msg_t)" where
  "queue_shift i n q =
     (if i < n then
        (if NETDEV2_PKT_QUEUE_SIZE \<le> i + 1 then Inl OutOfBounds
         else
           (let q' = q(i := (q i)\<lparr>sender_pid := sender_pid (q (i + 1)),
                                  type := type (q (i + 1)),
                                  content_ptr := content_ptr (q (i + 1))\<rparr>)
            in if sender_pid (q' i) = 0 \<and> type (q' i) = 0 then Inr q'
               else queue_shift (i + 1) n q'))
      else Inr q)"
  by pat_completeness auto
termination
  by (relation "measure (\<lambda>(i, n, q). n - i)") auto

declare queue_shift.simps [simp del]

text \<open>
  The test \<^verbatim>\<open>pending_num < 0\<close> after the decrement: the 8-bit unsigned counter is
  promoted to \<^verbatim>\<open>int\<close> and compared with 0.
\<close>

definition pending_num_negative :: "uint8_t \<Rightarrow> bool" where
  "pending_num_negative p = (uint p < 0)"

text \<open>
  The debug output is compiled out (\<^verbatim>\<open>ENABLE_DEBUG\<close> is 0), so both branches of the test
  continue with the same state.
\<close>

definition msg_queue_remove_head :: "mac \<Rightarrow> error + mac" where
  "msg_queue_remove_head s =
     (let s1 = gnrc_pktbuf_release (content_ptr (pkt_queue s 0)) s;
          s2 = s1\<lparr>pending_num := pending_num s1 - 1\<rparr>;
          s3 = (if pending_num_negative (pending_num s2) then s2 else s2)
      in if pending_num s3 \<noteq> 0 then
           (case queue_shift 0 (unat (pending_num s3)) (pkt_queue s3) of
              Inl e \<Rightarrow> Inl e
            | Inr q \<Rightarrow> Inr (s3\<lparr>pkt_queue := q\<rparr>))
         else Inr s3)"

definition msg_queue_send :: "mac \<Rightarrow> mac" where
  "msg_queue_send s =
     send_with_retries (content_ptr (pkt_queue s 0))
       (s\<lparr>radio_busy := True, sending_beacon := False\<rparr>)"

text \<open>The frames that wait in the queue, head first.\<close>

definition queue_frames :: "mac \<Rightarrow> pkt_ptr list" where
  "queue_frames s = map (\<lambda>i. content_ptr (pkt_queue s i)) [0 ..< unat (pending_num s)]"

subsection \<open>Callbacks handed to the retry/CSMA layer\<close>

text \<open>
  \<^verbatim>\<open>send_packet\<close> is called back by the CSMA layer; \<open>sent\<close> tells whether
  \<^verbatim>\<open>msg_send\<close> returned a positive value. (\<^verbatim>\<open>send_packet_csma\<close> only passes its
  arguments on to \<^verbatim>\<open>send_with_csma\<close>, which is outside the file.)
\<close>

definition send_packet :: "pkt_ptr \<Rightarrow> bool \<Rightarrow> bool \<Rightarrow> mac \<Rightarrow> error + mac" where
  "send_packet pkt retransmission sent s =
     (let s1 = s\<lparr>retry_rexmit := retransmission\<rparr>
      in if sent then Inr (msg_send (GNRC_NETDEV2_DUTYCYCLE_MSG_TYPE_LINK_RETRANSMIT pkt) s1)
         else Inl AssertFailed)"

subsection \<open>The timer callback\<close>

definition dutycycle_cb :: "config \<Rightarrow> mac \<Rightarrow> error + mac" where
  "dutycycle_cb c s =
     (case dutycycle_state s of
        DUTY_INIT \<Rightarrow> Inr s
      | DUTY_SLEEP \<Rightarrow>
          Inr (msg_send GNRC_NETDEV2_DUTYCYCLE_MSG_TYPE_EVENT
                 (if pending_num s \<noteq> 0
                  then s\<lparr>dutycycle_state := DUTY_TX_DATA_BEFORE_BEACON\<rparr>
                  else s\<lparr>dutycycle_state := DUTY_TX_BEACON\<rparr>))
      | DUTY_LISTEN \<Rightarrow>
          if 0 < pending_num s then
            (case get_sleep_interval c s of
               Inl x \<Rightarrow> Inl x
             | Inr t \<Rightarrow>
                 Inr (msg_send GNRC_NETDEV2_DUTYCYCLE_MSG_TYPE_CHECK_QUEUE
                        ((xtimer_set t s)\<lparr>dutycycle_state := DUTY_TX_DATA\<rparr>)))
          else
            Inr (msg_send GNRC_NETDEV2_DUTYCYCLE_MSG_TYPE_EVENT
                   (s\<lparr>dutycycle_state := DUTY_SLEEP\<rparr>))
      | DUTY_TX_DATA \<Rightarrow> Inr (s\<lparr>dutycycle_state := DUTY_TX_DATA_BEFORE_BEACON\<rparr>)
      | DUTY_TX_BEACON \<Rightarrow> Inr s
      | DUTY_TX_DATA_BEFORE_BEACON \<Rightarrow> Inr s)"

subsection \<open>The event callback of the driver\<close>

definition pass_on_packet :: "bool \<Rightarrow> pkt_ptr \<Rightarrow> mac \<Rightarrow> mac" where
  "pass_on_packet dispatched pkt s =
     (if \<not> dispatched then gnrc_pktbuf_release pkt s
      else s\<lparr>delivered := delivered s @ [pkt]\<rparr>)"

definition event_rx_complete :: "config \<Rightarrow> event_env \<Rightarrow> mac \<Rightarrow> error + mac" where
  "event_rx_complete c e s =
     (let pkt = recv_pkt e;
          s1 = xtimer_remove s
      in case (if additional_wakeup s1 then
                 Inr (msg_send GNRC_NETDEV2_DUTYCYCLE_MSG_TYPE_EVENT
                        (s1\<lparr>dutycycle_state := DUTY_LISTEN, additional_wakeup := False\<rparr>))
               else if pending_num s1 = 0 then
                 Inr (msg_send GNRC_NETDEV2_DUTYCYCLE_MSG_TYPE_EVENT
                        (s1\<lparr>dutycycle_state := DUTY_SLEEP\<rparr>))
               else
                 (case get_sleep_interval c s1 of
                    Inl x \<Rightarrow> Inl x
                  | Inr t \<Rightarrow>
                      Inr (msg_send GNRC_NETDEV2_DUTYCYCLE_MSG_TYPE_CHECK_QUEUE
                             ((xtimer_set t s1)\<lparr>dutycycle_state := DUTY_TX_DATA\<rparr>))))
         of Inl x \<Rightarrow> Inl x
          | Inr s2 \<Rightarrow>
              Inr (if pkt \<noteq> NULL then pass_on_packet (dispatch_receive e) pkt s2 else s2))"

definition event_tx_complete_pending :: "mac \<Rightarrow> mac" where
  "event_tx_complete_pending s =
     (let s1 = reset_sleep_interval (s\<lparr>radio_busy := False\<rparr>)
      in if dutycycle_state s1 \<noteq> DUTY_INIT then
           msg_send GNRC_NETDEV2_DUTYCYCLE_MSG_TYPE_EVENT
             ((xtimer_remove s1)\<lparr>dutycycle_state := DUTY_LISTEN\<rparr>)
         else s1)"

definition event_tx_complete :: "config \<Rightarrow> mac \<Rightarrow> error + mac" where
  "event_tx_complete c s =
     (let s1 = s\<lparr>radio_busy := False\<rparr>
      in if dutycycle_state s1 \<noteq> DUTY_INIT then
           (if dutycycle_state s1 = DUTY_TX_BEACON then
              (case backoff_sleep_interval c (xtimer_remove s1) of
                 Inl x \<Rightarrow> Inl x
               | Inr s2 \<Rightarrow>
                   Inr (msg_send GNRC_NETDEV2_DUTYCYCLE_MSG_TYPE_EVENT
                          (s2\<lparr>dutycycle_state := DUTY_SLEEP\<rparr>)))
            else if 0 < pending_num s1 then
              (let s2 = reset_sleep_interval s1
               in if dutycycle_state s2 \<noteq> DUTY_TX_DATA then
                    (if dutycycle_state s2 \<noteq> DUTY_SLEEP
                     then Inr (msg_send GNRC_NETDEV2_DUTYCYCLE_MSG_TYPE_REMOVE_QUEUE
                                 (xtimer_remove s2))
                     else Inl AssertFailed)
                  else Inr (msg_send GNRC_NETDEV2_DUTYCYCLE_MSG_TYPE_REMOVE_QUEUE s2))
            else if dutycycle_state s1 = DUTY_TX_DATA then
              Inr (msg_send GNRC_NETDEV2_DUTYCYCLE_MSG_TYPE_EVENT s1)
            else Inr s1)
         else Inr s1)"

text \<open>
  The code from the label \<^verbatim>\<open>case NETDEV2_EVENT_TX_NOACK\<close> on, which
  \<^verbatim>\<open>NETDEV2_EVENT_TX_MEDIUM_BUSY\<close> falls through to: the retry layer is asked whether it
  tries again, and only when it does not is the transmission over.
\<close>

definition event_tx_noack :: "event_env \<Rightarrow> mac \<Rightarrow> error + mac" where
  "event_tx_noack e s =
     (if retry_send_failed e then Inr s
      else
        (let s1 = s\<lparr>radio_busy := False\<rparr>
         in if dutycycle_state s1 \<noteq> DUTY_INIT then
              (if dutycycle_state s1 = DUTY_TX_BEACON then
                 Inr (msg_send GNRC_NETDEV2_DUTYCYCLE_MSG_TYPE_EVENT
                        ((xtimer_remove s1)\<lparr>dutycycle_state := DUTY_SLEEP\<rparr>))
               else if 0 < pending_num s1 then
                 (if dutycycle_state s1 \<noteq> DUTY_TX_DATA then
                    (if dutycycle_state s1 \<noteq> DUTY_SLEEP
                     then Inr (msg_send GNRC_NETDEV2_DUTYCYCLE_MSG_TYPE_REMOVE_QUEUE
                                 (xtimer_remove s1))
                     else Inl AssertFailed)
                  else Inr (msg_send GNRC_NETDEV2_DUTYCYCLE_MSG_TYPE_REMOVE_QUEUE s1))
               else if dutycycle_state s1 = DUTY_TX_DATA then
                 Inr (msg_send GNRC_NETDEV2_DUTYCYCLE_MSG_TYPE_EVENT s1)
               else Inr s1)
            else Inr s1))"

text \<open>
  \<^verbatim>\<open>_event_cb\<close>. The calls \<^verbatim>\<open>csma_send_succeeded()\<close> and \<^verbatim>\<open>retry_send_succeeded()\<close>
  change nothing in this file's state.
\<close>

definition event_cb :: "config \<Rightarrow> event_env \<Rightarrow> netdev2_event_t \<Rightarrow> mac \<Rightarrow> error + mac" where
  "event_cb c e event s =
     (case event of
        NETDEV2_EVENT_ISR \<Rightarrow> Inr (msg_send NETDEV2_MSG_TYPE_EVENT (s\<lparr>irq_pending := True\<rparr>))
      | NETDEV2_EVENT_RX_PENDING \<Rightarrow> Inr (s\<lparr>additional_wakeup := True\<rparr>)
      | NETDEV2_EVENT_RX_COMPLETE \<Rightarrow> event_rx_complete c e s
      | NETDEV2_EVENT_TX_COMPLETE_PENDING \<Rightarrow> Inr (event_tx_complete_pending s)
      | NETDEV2_EVENT_TX_COMPLETE \<Rightarrow> event_tx_complete c s
      | NETDEV2_EVENT_TX_MEDIUM_BUSY \<Rightarrow>
          if csma_send_failed e then Inr s else event_tx_noack e s
      | NETDEV2_EVENT_TX_NOACK \<Rightarrow> event_tx_noack e s
      | NETDEV2_EVENT_OTHER \<Rightarrow> Inr s)"

subsection \<open>Submitting to the radio\<close>

definition is_receiving :: "env \<Rightarrow> error + bool" where
  "is_receiving e =
     (case get_state e of
        None \<Rightarrow> Inl AssertFailed
      | Some st \<Rightarrow> Inr (st = NETOPT_STATE_RX))"

text \<open>
  The condition \<^verbatim>\<open>!radio_busy && !irq_pending && !is_receiving(dev)\<close>, evaluated from
  left to right: the driver is asked only when the two flags are clear.
\<close>

definition radio_free :: "env \<Rightarrow> mac \<Rightarrow> error + bool" where
  "radio_free e s =
     (if \<not> radio_busy s \<and> \<not> irq_pending s then
        (case is_receiving e of Inl x \<Rightarrow> Inl x | Inr r \<Rightarrow> Inr (\<not> r))
      else Inr False)"

definition send_beacon_safely :: "env \<Rightarrow> mac \<Rightarrow> error + mac" where
  "send_beacon_safely e s =
     (case (if radio_busy s \<or> irq_pending s then Inr True else is_receiving e) of
        Inl x \<Rightarrow> Inl x
      | Inr blocked \<Rightarrow>
          Inr (if blocked then s\<lparr>beacon_pending := True\<rparr>
               else send_with_retries NULL (s\<lparr>radio_busy := True, sending_beacon := True\<rparr>)))"

subsection \<open>The event loop of the MAC thread\<close>

text \<open>One function for each branch of \<^verbatim>\<open>switch (msg.type)\<close> in
  \<^verbatim>\<open>_gnrc_netdev2_duty_thread\<close>.\<close>

definition thread_dutycycle_event :: "config \<Rightarrow> env \<Rightarrow> mac \<Rightarrow> error + mac" where
  "thread_dutycycle_event c e s =
     (if dutycycling s = NETOPT_ENABLE then
        (case dutycycle_state s of
           DUTY_INIT \<Rightarrow>
             Inr (xtimer_set (random_uint32 e)
                    (driver_set_call SET_SRC_LEN
                       (driver_set_call (SET_STATE NETOPT_STATE_SLEEP)
                          (s\<lparr>dutycycling := NETOPT_ENABLE, dutycycle_state := DUTY_SLEEP\<rparr>))))
         | DUTY_TX_BEACON \<Rightarrow> send_beacon_safely e (xtimer_remove s)
         | DUTY_TX_DATA \<Rightarrow>
             Inr (driver_set_call (SET_STATE NETOPT_STATE_SLEEP)
                    (s\<lparr>dutycycle_state := DUTY_SLEEP\<rparr>))
         | DUTY_TX_DATA_BEFORE_BEACON \<Rightarrow>
             (let s1 = xtimer_remove s
              in case radio_free e s1 of
                   Inl x \<Rightarrow> Inl x
                 | Inr ok \<Rightarrow> Inr (if ok then msg_queue_send s1 else s1))
         | DUTY_LISTEN \<Rightarrow>
             Inr (xtimer_set (DUTYCYCLE_WAKEUP_INTERVAL c)
                    (driver_set_call (SET_STATE NETOPT_STATE_IDLE) s))
         | DUTY_SLEEP \<Rightarrow>
             (let s1 = driver_set_call (SET_STATE NETOPT_STATE_SLEEP) s
              in case get_sleep_interval c s1 of
                   Inl x \<Rightarrow> Inl x
                 | Inr t \<Rightarrow> Inr (xtimer_set t s1)))
      else Inr s)"

definition thread_remove_queue :: "env \<Rightarrow> mac \<Rightarrow> error + mac" where
  "thread_remove_queue e s =
     (case msg_queue_remove_head s of
        Inl x \<Rightarrow> Inl x
      | Inr s1 \<Rightarrow>
          if pending_num s1 \<noteq> 0 then
            (case radio_free e s1 of
               Inl x \<Rightarrow> Inl x
             | Inr ok \<Rightarrow> Inr (if ok then msg_queue_send s1 else s1))
          else if dutycycle_state s1 = DUTY_TX_DATA_BEFORE_BEACON then
            send_beacon_safely e (s1\<lparr>dutycycle_state := DUTY_TX_BEACON\<rparr>)
          else if dutycycle_state s1 = DUTY_TX_DATA then
            Inr (driver_set_call (SET_STATE NETOPT_STATE_SLEEP)
                   (s1\<lparr>dutycycle_state := DUTY_SLEEP\<rparr>))
          else Inr s1)"

definition thread_check_queue :: "env \<Rightarrow> mac \<Rightarrow> error + mac" where
  "thread_check_queue e s =
     (case (if dutycycle_state s \<noteq> DUTY_LISTEN \<and> pending_num s \<noteq> 0
            then radio_free e s else Inr False) of
        Inl x \<Rightarrow> Inl x
      | Inr ok \<Rightarrow>
          Inr (if ok then
                 msg_queue_send
                   (if dutycycle_state s = DUTY_SLEEP
                    then s\<lparr>dutycycle_state := DUTY_TX_DATA\<rparr> else s)
               else s))"

text \<open>\<^verbatim>\<open>dev->driver->isr(dev)\<close>: the driver calls \<^verbatim>\<open>_event_cb\<close> once for each of its events.\<close>

fun driver_isr :: "config \<Rightarrow> (netdev2_event_t \<times> event_env) list \<Rightarrow> mac \<Rightarrow> error + mac" where
  "driver_isr c [] s = Inr s"
| "driver_isr c (x # xs) s =
     (case event_cb c (snd x) (fst x) s of
        Inl err \<Rightarrow> Inl err
      | Inr s' \<Rightarrow> driver_isr c xs s')"

text \<open>What the NETDEV2\_MSG\_TYPE\_EVENT branch does after the driver's \<^verbatim>\<open>isr\<close> returns.\<close>

definition after_isr :: "mac \<Rightarrow> mac" where
  "after_isr s =
     msg_send GNRC_NETDEV2_DUTYCYCLE_MSG_TYPE_CHECK_QUEUE
       (if beacon_pending s \<and> \<not> radio_busy s then
          send_with_retries NULL
            (s\<lparr>beacon_pending := False, radio_busy := True, sending_beacon := True\<rparr>)
        else s)"

definition thread_netdev_event :: "config \<Rightarrow> env \<Rightarrow> mac \<Rightarrow> error + mac" where
  "thread_netdev_event c e s =
     (case driver_isr c (isr_events e) (s\<lparr>irq_pending := False\<rparr>) of
        Inl x \<Rightarrow> Inl x
      | Inr s1 \<Rightarrow> Inr (after_isr s1))"

text \<open>The value that \<^verbatim>\<open>msg_queue_add\<close> returns is not used.\<close>

definition thread_snd :: "env \<Rightarrow> msg_t \<Rightarrow> mac \<Rightarrow> error + mac" where
  "thread_snd e msg s =
     (let s1 = snd (msg_queue_add msg s)
      in if dutycycle_state s1 = DUTY_INIT then Inr (msg_queue_send s1)
         else if 1 < pending_num s1 \<or> radio_busy s1 then Inr s1
         else
           (case radio_free e s1 of
              Inl x \<Rightarrow> Inl x
            | Inr ok \<Rightarrow>
                Inr (if ok \<and> dutycycle_state s1 = DUTY_SLEEP
                     then msg_queue_send (s1\<lparr>dutycycle_state := DUTY_TX_DATA\<rparr>)
                     else s1)))"

definition msg_reply :: "int \<Rightarrow> mac \<Rightarrow> mac" where
  "msg_reply r s = s\<lparr>replies := replies s @ [r]\<rparr>"

text \<open>
  For the duty-cycle option the request is rewritten to set the driver's STATE to
  \<^verbatim>\<open>sleepstate\<close>, which both branches leave at \<^verbatim>\<open>NETOPT_STATE_SLEEP\<close>.
\<close>

definition thread_set :: "env \<Rightarrow> netapi_opt \<Rightarrow> mac \<Rightarrow> mac" where
  "thread_set e opt s =
     (case opt of
        NETOPT_DUTYCYCLE v \<Rightarrow>
          (let s1 = xtimer_remove (s\<lparr>dutycycling := v\<rparr>);
               s2 = (if dutycycling s1 = NETOPT_ENABLE
                     then xtimer_set (random_uint32 e) (s1\<lparr>dutycycle_state := DUTY_SLEEP\<rparr>)
                     else s1\<lparr>dutycycle_state := DUTY_INIT\<rparr>);
               s3 = driver_set_call SET_SRC_LEN s2;
               s4 = driver_set_call (SET_STATE NETOPT_STATE_SLEEP) s3
           in msg_reply (driver_res e) s4)
      | NETOPT_OTHER \<Rightarrow> msg_reply (driver_res e) (driver_set_call SET_OTHER s))"

definition thread_get :: "env \<Rightarrow> mac \<Rightarrow> mac" where
  "thread_get e s = msg_reply (driver_res e) s"

definition thread_link_retransmit :: "config \<Rightarrow> env \<Rightarrow> pkt_ptr \<Rightarrow> mac \<Rightarrow> error + mac" where
  "thread_link_retransmit c e p s =
     (case (if \<not> irq_pending s then is_receiving e else Inr True) of
        Inl x \<Rightarrow> Inl x
      | Inr blocked \<Rightarrow>
          if \<not> blocked then
            (let s1 = s\<lparr>driver_sends := driver_sends s @
                          [if sending_beacon s then SEND_BEACON
                           else if retry_rexmit s then RESEND_WITHOUT_RELEASE p
                           else SEND_WITHOUT_RELEASE p]\<rparr>
             in if send_res e < 0
                then event_cb c (retransmit_env e) NETDEV2_EVENT_TX_MEDIUM_BUSY s1
                else Inr s1)
          else Inr (msg_send (GNRC_NETDEV2_DUTYCYCLE_MSG_TYPE_LINK_RETRANSMIT p) s))"

text \<open>One turn of the loop: the message \<open>m\<close> has been received.\<close>

definition gnrc_netdev2_duty_thread :: "config \<Rightarrow> env \<Rightarrow> mac_msg \<Rightarrow> mac \<Rightarrow> error + mac" where
  "gnrc_netdev2_duty_thread c e m s =
     (case m of
        GNRC_NETDEV2_DUTYCYCLE_MSG_TYPE_EVENT \<Rightarrow> thread_dutycycle_event c e s
      | GNRC_NETDEV2_DUTYCYCLE_MSG_TYPE_REMOVE_QUEUE \<Rightarrow> thread_remove_queue e s
      | GNRC_NETDEV2_DUTYCYCLE_MSG_TYPE_CHECK_QUEUE \<Rightarrow> thread_check_queue e s
      | NETDEV2_MSG_TYPE_EVENT \<Rightarrow> thread_netdev_event c e s
      | GNRC_NETAPI_MSG_TYPE_SND msg \<Rightarrow> thread_snd e msg s
      | GNRC_NETAPI_MSG_TYPE_SET opt \<Rightarrow> Inr (thread_set e opt s)
      | GNRC_NETAPI_MSG_TYPE_GET \<Rightarrow> Inr (thread_get e s)
      | GNRC_NETDEV2_DUTYCYCLE_MSG_TYPE_LINK_RETRANSMIT p \<Rightarrow> thread_link_retransmit c e p s
      | MSG_TYPE_UNKNOWN \<Rightarrow> Inr s)"

subsection \<open>Runs\<close>

text \<open>
  What can happen to the state: the MAC thread receives a message, the timer fires (only
  a timer that is set fires, and it is no longer set when its callback runs), the radio
  raises its interrupt (\<^verbatim>\<open>_event_cb\<close> with \<^verbatim>\<open>NETDEV2_EVENT_ISR\<close>), or the CSMA layer calls
  \<^verbatim>\<open>send_packet\<close> back. Each of them runs to its end before the next starts. Messages
  reach the thread from other threads as well, so a run may deliver any message at any
  time, whether or not \<open>mbox\<close> holds it: the reachable states below include every state
  the thread can be in.
\<close>

datatype input =
    RECEIVE mac_msg env
  | TICK
  | RADIO_IRQ
  | SEND_PACKET pkt_ptr bool bool

definition mac_step :: "config \<Rightarrow> input \<Rightarrow> mac \<Rightarrow> error + mac" where
  "mac_step c i s =
     (case i of
        RECEIVE m e \<Rightarrow> gnrc_netdev2_duty_thread c e m s
      | TICK \<Rightarrow>
          (case timer s of
             None \<Rightarrow> Inr s
           | Some t \<Rightarrow> dutycycle_cb c (s\<lparr>timer := None\<rparr>))
      | RADIO_IRQ \<Rightarrow>
          event_cb c \<lparr>csma_send_failed = False, retry_send_failed = False,
                      recv_pkt = NULL, dispatch_receive = False\<rparr> NETDEV2_EVENT_ISR s
      | SEND_PACKET p retransmission sent \<Rightarrow> send_packet p retransmission sent s)"

fun run :: "config \<Rightarrow> input list \<Rightarrow> mac \<Rightarrow> error + mac" where
  "run c [] s = Inr s"
| "run c (i # is) s =
     (case mac_step c i s of
        Inl x \<Rightarrow> Inl x
      | Inr s' \<Rightarrow> run c is s')"

inductive reachable :: "config \<Rightarrow> mac \<Rightarrow> bool" for c :: config where
  reachable_init: "reachable c mac_init"
| reachable_step: "reachable c s \<Longrightarrow> mac_step c i s = Inr s' \<Longrightarrow> reachable c s'"

subsection \<open>Notions used in the properties\<close>

text \<open>
  The bound on the sleep shift \<open>k\<close> that every run keeps: the interval
  \<^verbatim>\<open>DUTYCYCLE_SLEEP_INTERVAL_MIN << k\<close> still fits into 32 bits, and \<open>k\<close> is 0 or the
  interval for \<open>k - 1\<close> was below the maximum.
\<close>

definition sleep_shift_ok :: "config \<Rightarrow> uint8_t \<Rightarrow> bool" where
  "sleep_shift_ok c k =
     (unat (DUTYCYCLE_SLEEP_INTERVAL_MIN c) * 2 ^ unat k < 2 ^ 32 \<and>
      (k = 0 \<or>
       unat (DUTYCYCLE_SLEEP_INTERVAL_MIN c) * 2 ^ (unat k - 1)
         < unat (DUTYCYCLE_SLEEP_INTERVAL_MAX c)))"

text \<open>
  The state with the head of the queue dropped: its pointer released, the counter
  decremented and the entries behind it moved one place to the front.
\<close>

definition head_dropped :: "mac \<Rightarrow> mac" where
  "head_dropped s =
     s\<lparr>released := released s @ [content_ptr (pkt_queue s 0)],
       pending_num := pending_num s - 1,
       pkt_queue :=
         (if pending_num s - 1 \<noteq> 0
          then (\<lambda>j. if j < unat (pending_num s) - 1 then pkt_queue s (j + 1) else pkt_queue s j)
          else pkt_queue s)\<rparr>"

subsection \<open>Concrete inputs\<close>

text \<open>A configuration whose maximum is not the minimum times a power of two.\<close>

definition c0 :: config where
  "c0 = \<lparr>DUTYCYCLE_SLEEP_INTERVAL_MIN = 1, DUTYCYCLE_SLEEP_INTERVAL_MAX = 3,
         DUTYCYCLE_WAKEUP_INTERVAL = 1\<rparr>"

text \<open>Two SND messages of thread 3, for the packets at addresses 1 and 2.\<close>

definition m1 :: msg_t where
  "m1 = \<lparr>sender_pid = 3, type = 514, content_ptr = 1\<rparr>"

definition m2 :: msg_t where
  "m2 = \<lparr>sender_pid = 3, type = 514, content_ptr = 2\<rparr>"

text \<open>Event environments: the retry layer gives up, or it tries again after CSMA gave up.\<close>

definition ev0 :: event_env where
  "ev0 = \<lparr>csma_send_failed = False, retry_send_failed = False, recv_pkt = NULL,
          dispatch_receive = False\<rparr>"

definition ev_retry :: event_env where
  "ev_retry = \<lparr>csma_send_failed = False, retry_send_failed = True, recv_pkt = NULL,
               dispatch_receive = False\<rparr>"

text \<open>Thread environments: the radio idle, the radio receiving, the driver raising one event.\<close>

definition e_idle :: env where
  "e_idle = \<lparr>get_state = Some NETOPT_STATE_IDLE, isr_events = [], send_res = 0,
             retransmit_env = ev0, driver_res = 0, random_uint32 = 0\<rparr>"

definition e_rx :: env where
  "e_rx = \<lparr>get_state = Some NETOPT_STATE_RX, isr_events = [(NETDEV2_EVENT_OTHER, ev0)],
           send_res = 0, retransmit_env = ev0, driver_res = 0, random_uint32 = 0\<rparr>"

definition e_isr :: "netdev2_event_t \<Rightarrow> env" where
  "e_isr ev = e_idle\<lparr>isr_events := [(ev, ev0)]\<rparr>"

text \<open>
  One wake-up with an empty queue: the timer fires, the thread submits the beacon, the
  CSMA layer hands it to the driver, the radio reports the transmission complete, and the
  thread goes back to sleep.
\<close>

definition beacon_cycle :: "input list" where
  "beacon_cycle =
     [TICK,
      RECEIVE GNRC_NETDEV2_DUTYCYCLE_MSG_TYPE_EVENT e_idle,
      SEND_PACKET NULL False True,
      RECEIVE (GNRC_NETDEV2_DUTYCYCLE_MSG_TYPE_LINK_RETRANSMIT NULL) e_idle,
      RADIO_IRQ,
      RECEIVE NETDEV2_MSG_TYPE_EVENT (e_isr NETDEV2_EVENT_TX_COMPLETE),
      RECEIVE GNRC_NETDEV2_DUTYCYCLE_MSG_TYPE_EVENT e_idle,
      RECEIVE GNRC_NETDEV2_DUTYCYCLE_MSG_TYPE_CHECK_QUEUE e_idle]"

definition two_beacons :: "input list" where
  "two_beacons =
     RECEIVE (GNRC_NETAPI_MSG_TYPE_SET (NETOPT_DUTYCYCLE NETOPT_ENABLE)) e_idle
       # beacon_cycle @ beacon_cycle"

definition s_two_beacons :: mac where
  "s_two_beacons = mac_init\<lparr>
     sleep_interval_shift := 2, dutycycling := NETOPT_ENABLE, dutycycle_state := DUTY_SLEEP,
     timer := Some 3, sending_beacon := True,
     mbox :=
       [GNRC_NETDEV2_DUTYCYCLE_MSG_TYPE_EVENT,
        GNRC_NETDEV2_DUTYCYCLE_MSG_TYPE_LINK_RETRANSMIT NULL,
        NETDEV2_MSG_TYPE_EVENT, GNRC_NETDEV2_DUTYCYCLE_MSG_TYPE_EVENT,
        GNRC_NETDEV2_DUTYCYCLE_MSG_TYPE_CHECK_QUEUE,
        GNRC_NETDEV2_DUTYCYCLE_MSG_TYPE_EVENT,
        GNRC_NETDEV2_DUTYCYCLE_MSG_TYPE_LINK_RETRANSMIT NULL,
        NETDEV2_MSG_TYPE_EVENT, GNRC_NETDEV2_DUTYCYCLE_MSG_TYPE_EVENT,
        GNRC_NETDEV2_DUTYCYCLE_MSG_TYPE_CHECK_QUEUE],
     submitted := [NULL, NULL],
     driver_sets :=
       [SET_SRC_LEN, SET_STATE NETOPT_STATE_SLEEP, SET_STATE NETOPT_STATE_SLEEP,
        SET_STATE NETOPT_STATE_SLEEP],
     driver_sends := [SEND_BEACON, SEND_BEACON], replies := [0]\<rparr>"

text \<open>
  A beacon is in the air after one empty wake-up, and the upper layer sends a packet
  before the radio reports the beacon complete.
\<close>

definition send_during_beacon :: "input list" where
  "send_during_beacon =
     RECEIVE (GNRC_NETAPI_MSG_TYPE_SET (NETOPT_DUTYCYCLE NETOPT_ENABLE)) e_idle
       # beacon_cycle @
     [TICK,
      RECEIVE GNRC_NETDEV2_DUTYCYCLE_MSG_TYPE_EVENT e_idle,
      RECEIVE (GNRC_NETAPI_MSG_TYPE_SND m1) e_idle]"

text \<open>Duty-cycling was never switched on: a packet is sent, and the radio interrupts.\<close>

definition busy_in_init :: "input list" where
  "busy_in_init = [RECEIVE (GNRC_NETAPI_MSG_TYPE_SND m1) e_idle, RADIO_IRQ]"

text \<open>
  The only queued packet is sent while the sleep timer expires; the radio reports it
  complete and then interrupts again, before the thread gets to the REMOVE\_QUEUE
  message.
\<close>

definition last_frame_sent :: "input list" where
  "last_frame_sent =
     [RECEIVE (GNRC_NETAPI_MSG_TYPE_SET (NETOPT_DUTYCYCLE NETOPT_ENABLE)) e_idle,
      RECEIVE (GNRC_NETAPI_MSG_TYPE_SND m1) e_idle,
      TICK,
      RADIO_IRQ,
      RECEIVE NETDEV2_MSG_TYPE_EVENT (e_isr NETDEV2_EVENT_TX_COMPLETE),
      RADIO_IRQ]"

text \<open>Duty-cycling is switched off, and then the radio receives a frame.\<close>

definition rx_after_disable :: "input list" where
  "rx_after_disable =
     [RECEIVE (GNRC_NETAPI_MSG_TYPE_SET (NETOPT_DUTYCYCLE NETOPT_DISABLE)) e_idle,
      RADIO_IRQ,
      RECEIVE NETDEV2_MSG_TYPE_EVENT (e_isr NETDEV2_EVENT_RX_COMPLETE)]"

definition rx_after_disable_queued :: "input list" where
  "rx_after_disable_queued =
     [RECEIVE (GNRC_NETAPI_MSG_TYPE_SET (NETOPT_DUTYCYCLE NETOPT_DISABLE)) e_idle,
      RECEIVE (GNRC_NETAPI_MSG_TYPE_SND m1) e_idle,
      RADIO_IRQ,
      RECEIVE NETDEV2_MSG_TYPE_EVENT (e_isr NETDEV2_EVENT_RX_COMPLETE)]"

text \<open>States: a full queue in LISTEN; one packet in the air in TX\_DATA.\<close>

definition s_full :: mac where
  "s_full = mac_init\<lparr>dutycycling := NETOPT_ENABLE, dutycycle_state := DUTY_LISTEN,
                      pending_num := 128\<rparr>"

definition s_tx :: mac where
  "s_tx = mac_init\<lparr>sleep_interval_shift := 1, dutycycling := NETOPT_ENABLE,
     dutycycle_state := DUTY_TX_DATA, timer := Some 2, pending_num := 1, radio_busy := True,
     pkt_queue := (pkt_queue mac_init)(0 := m1), submitted := [1]\<rparr>"

text \<open>A beacon in the air while one packet waits in the queue.\<close>

definition s_beacon :: mac where
  "s_beacon = mac_init\<lparr>dutycycling := NETOPT_ENABLE, dutycycle_state := DUTY_TX_BEACON,
     pending_num := 1, radio_busy := True, sending_beacon := True,
     pkt_queue := (pkt_queue mac_init)(0 := m1), submitted := [NULL]\<rparr>"

text \<open>Two packets queued in TX\_DATA, the first one reported complete.\<close>

definition s_two :: mac where
  "s_two = mac_init\<lparr>dutycycling := NETOPT_ENABLE, dutycycle_state := DUTY_TX_DATA,
     timer := Some 1, pending_num := 2, pkt_queue := (pkt_queue mac_init)(0 := m1, 1 := m2),
     mbox := [GNRC_NETDEV2_DUTYCYCLE_MSG_TYPE_REMOVE_QUEUE], submitted := [1]\<rparr>"

section \<open>Properties\<close>

subsection \<open>The queue counter\<close>

lemma msg_t_update_all:
  "(x::msg_t)\<lparr>sender_pid := sender_pid y, type := type y, content_ptr := content_ptr y\<rparr> = y"
  by simp

lemma queue_shift_unfold:
  "queue_shift i n q =
     (if i < n then
        (if NETDEV2_PKT_QUEUE_SIZE \<le> i + 1 then Inl OutOfBounds
         else if sender_pid (q (i + 1)) = 0 \<and> type (q (i + 1)) = 0
              then Inr (q(i := q (i + 1)))
              else queue_shift (i + 1) n (q(i := q (i + 1))))
      else Inr q)"
  by (subst queue_shift.simps) (simp add: Let_def msg_t_update_all)

lemma queue_shift_error: "queue_shift i n q = Inl e \<Longrightarrow> e = OutOfBounds"
  by (induction i n q rule: queue_shift.induct)
     (subst (asm) queue_shift.simps, auto simp: Let_def split: if_splits)

lemma queue_shift_leaves_array:
  "queue_shift i n q = Inl e \<Longrightarrow> i \<le> j \<Longrightarrow> j + 1 < NETDEV2_PKT_QUEUE_SIZE \<Longrightarrow>
   \<not> (sender_pid (q (j + 1)) = 0 \<and> type (q (j + 1)) = 0)"
proof (induction "n - i" arbitrary: i q)
  case 0
  then have "\<not> i < n" by simp
  with "0.prems"(1) show ?case by (subst (asm) queue_shift_unfold) simp
next
  case (Suc k)
  then have lt: "i < n" by simp
  have nb: "\<not> NETDEV2_PKT_QUEUE_SIZE \<le> i + 1" using Suc.prems(2,3) by simp
  let ?q' = "q(i := q (i + 1))"
  have nz: "\<not> (sender_pid (q (i + 1)) = 0 \<and> type (q (i + 1)) = 0)"
    using Suc.prems(1) lt nb by (subst (asm) queue_shift_unfold) (auto split: if_splits)
  have rec: "queue_shift (i + 1) n ?q' = Inl e"
    using Suc.prems(1) lt nb nz by (subst (asm) queue_shift_unfold) (simp split: if_splits)
  show ?case
  proof (cases "j = i")
    case True
    with nz show ?thesis by simp
  next
    case False
    then have ij: "i + 1 \<le> j" using Suc.prems(2) by simp
    have k: "k = n - (i + 1)" using Suc.hyps(2) by simp
    have "\<not> (sender_pid (?q' (j + 1)) = 0 \<and> type (?q' (j + 1)) = 0)"
      by (rule Suc.hyps(1) [OF k rec ij Suc.prems(3)])
    then show ?thesis using ij by simp
  qed
qed

text \<open>
  C10. When \<^verbatim>\<open>msg_queue_remove_head\<close> is called with \<^verbatim>\<open>pending_num = 0\<close>, the 8-bit
  counter wraps to 255. The test \<^verbatim>\<open>pending_num < 0\<close> is false for every value of the
  counter, so the drop from an empty queue is not noticed: the function releases the
  pointer of entry 0 and goes on to its shifting loop with 255 entries. The loop ends at
  the first entry whose sender and type are 0, and the function returns with the counter
  at 255; only when no entry from index 1 on is of that kind does the loop leave the
  array.
\<close>

theorem msg_queue_remove_head_empty:
  "(\<forall>p. \<not> pending_num_negative p) \<and>
   (pending_num s = 0 \<longrightarrow>
      (case msg_queue_remove_head s of
         Inr s' \<Rightarrow>
           pending_num s' = 255 \<and>
           released s' = released s @ [content_ptr (pkt_queue s 0)]
       | Inl e \<Rightarrow>
           e = OutOfBounds \<and>
           (\<forall>j. j + 1 < NETDEV2_PKT_QUEUE_SIZE \<longrightarrow>
                sender_pid (pkt_queue s (j + 1)) \<noteq> 0 \<or> type (pkt_queue s (j + 1)) \<noteq> 0)))"
  by (auto simp: pending_num_negative_def msg_queue_remove_head_def Let_def
        gnrc_pktbuf_release_def
      split: sum.splits dest: queue_shift_error queue_shift_leaves_array [where j = "_"])

theorem msg_queue_remove_head_empty_witness:
  "pending_num mac_init = 0 \<and>
   msg_queue_remove_head mac_init = Inr (mac_init\<lparr>pending_num := 255, released := [NULL]\<rparr>)"
  using msg_queue_remove_head_empty [of mac_init]
  apply (simp add: msg_queue_remove_head_def Let_def gnrc_pktbuf_release_def mac_init_def
      pending_num_negative_def)
  apply (subst queue_shift.simps)
  apply (simp add: NETDEV2_PKT_QUEUE_SIZE_def Let_def fun_eq_iff)
  done

subsection \<open>The timer callback in SLEEP\<close>

text \<open>
  C8. When the timer callback runs while the state is \<^verbatim>\<open>DUTY_SLEEP\<close>, the state becomes
  \<^verbatim>\<open>DUTY_TX_DATA_BEFORE_BEACON\<close> if the queue holds a packet and \<^verbatim>\<open>DUTY_TX_BEACON\<close> if it
  holds none, and in both cases one EVENT message is sent to the MAC thread; nothing else
  changes.
\<close>

theorem dutycycle_cb_sleep:
  "dutycycle_state s = DUTY_SLEEP \<Longrightarrow>
   dutycycle_cb c s =
     Inr (s\<lparr>dutycycle_state :=
              (if pending_num s \<noteq> 0 then DUTY_TX_DATA_BEFORE_BEACON else DUTY_TX_BEACON),
            mbox := mbox s @ [GNRC_NETDEV2_DUTYCYCLE_MSG_TYPE_EVENT]\<rparr>)"
  by (simp add: dutycycle_cb_def msg_send_def)

theorem dutycycle_cb_sleep_witness:
  "dutycycle_state (mac_init\<lparr>dutycycle_state := DUTY_SLEEP, pending_num := 2\<rparr>) = DUTY_SLEEP \<and>
   dutycycle_cb c0 (mac_init\<lparr>dutycycle_state := DUTY_SLEEP, pending_num := 2\<rparr>) =
     Inr (mac_init\<lparr>dutycycle_state := DUTY_TX_DATA_BEFORE_BEACON, pending_num := 2,
                    mbox := [GNRC_NETDEV2_DUTYCYCLE_MSG_TYPE_EVENT]\<rparr>) \<and>
   dutycycle_cb c0 (mac_init\<lparr>dutycycle_state := DUTY_SLEEP\<rparr>) =
     Inr (mac_init\<lparr>dutycycle_state := DUTY_TX_BEACON,
                    mbox := [GNRC_NETDEV2_DUTYCYCLE_MSG_TYPE_EVENT]\<rparr>)"
  using dutycycle_cb_sleep [of "mac_init\<lparr>dutycycle_state := DUTY_SLEEP, pending_num := 2\<rparr>" c0]
    dutycycle_cb_sleep [of "mac_init\<lparr>dutycycle_state := DUTY_SLEEP\<rparr>" c0]
  by (simp add: mac_init_def)

subsection \<open>Transmission complete with data pending at the parent\<close>

text \<open>
  C9. On \<^verbatim>\<open>NETDEV2_EVENT_TX_COMPLETE_PENDING\<close> in any state other than \<^verbatim>\<open>DUTY_INIT\<close>
  (whether or not it is \<^verbatim>\<open>DUTY_TX_BEACON\<close>) the callback clears \<^verbatim>\<open>radio_busy\<close>, resets
  the sleep shift to 0, removes the timer, moves to \<^verbatim>\<open>DUTY_LISTEN\<close> and sends an EVENT
  message; in \<^verbatim>\<open>DUTY_INIT\<close> it only clears \<^verbatim>\<open>radio_busy\<close> and resets the shift.
\<close>

theorem event_cb_tx_complete_pending:
  "event_cb c e NETDEV2_EVENT_TX_COMPLETE_PENDING s =
     Inr (if dutycycle_state s \<noteq> DUTY_INIT
          then s\<lparr>radio_busy := False, sleep_interval_shift := 0, timer := None,
                 dutycycle_state := DUTY_LISTEN,
                 mbox := mbox s @ [GNRC_NETDEV2_DUTYCYCLE_MSG_TYPE_EVENT]\<rparr>
          else s\<lparr>radio_busy := False, sleep_interval_shift := 0\<rparr>)"
  by (simp add: event_cb_def event_tx_complete_pending_def Let_def reset_sleep_interval_def
      xtimer_remove_def msg_send_def)

subsection \<open>Evaluation\<close>

lemmas mac_defs =
  NULL_def NETDEV2_PKT_QUEUE_SIZE_def shift_left_def reset_sleep_interval_def
  backoff_sleep_interval_def get_sleep_interval_def msg_send_def gnrc_pktbuf_release_def
  send_with_retries_def driver_set_call_def xtimer_set_def xtimer_remove_def
  msg_queue_add_def pending_num_negative_def msg_queue_remove_head_def msg_queue_send_def
  send_packet_def dutycycle_cb_def pass_on_packet_def event_rx_complete_def
  event_tx_complete_pending_def event_tx_complete_def event_tx_noack_def event_cb_def
  is_receiving_def radio_free_def send_beacon_safely_def thread_dutycycle_event_def
  thread_remove_queue_def thread_check_queue_def after_isr_def thread_netdev_event_def
  thread_snd_def msg_reply_def thread_set_def thread_get_def thread_link_retransmit_def
  gnrc_netdev2_duty_thread_def mac_step_def Let_def

lemmas input_defs =
  c0_def m1_def m2_def ev0_def ev_retry_def e_idle_def e_rx_def e_isr_def mac_init_def

lemma run_append:
  "run c (xs @ ys) s = (case run c xs s of Inl x \<Rightarrow> Inl x | Inr s' \<Rightarrow> run c ys s')"
  by (induction xs arbitrary: s) (auto split: sum.splits)

lemma run_reachable: "reachable c s \<Longrightarrow> run c xs s = Inr s' \<Longrightarrow> reachable c s'"
proof (induction xs arbitrary: s)
  case Nil
  then show ?case by simp
next
  case (Cons i xs)
  then show ?case
    by (auto split: sum.splits intro: reachable_step)
qed

subsection \<open>Enqueueing\<close>

lemma thread_snd_logs:
  "thread_snd e msg s = Inr s' \<Longrightarrow> replies s' = replies s \<and> released s' = released s"
  by (auto simp: thread_snd_def msg_queue_add_def msg_queue_send_def send_with_retries_def
        Let_def
      split: if_splits sum.splits)

lemma queue_frames_add:
  assumes "unat (pending_num s) < NETDEV2_PKT_QUEUE_SIZE"
  shows "queue_frames (snd (msg_queue_add msg s)) = queue_frames s @ [content_ptr msg]"
proof -
  have "unat (pending_num s + 1) = Suc (unat (pending_num s))"
    using assms by (simp add: NETDEV2_PKT_QUEUE_SIZE_def unat_word_ariths)
  then show ?thesis using assms
    by (simp add: msg_queue_add_def queue_frames_def)
qed

lemma thread_snd_queue:
  assumes "thread_snd e msg s = Inr s'"
  shows "pkt_queue s' = pkt_queue (snd (msg_queue_add msg s))"
    and "pending_num s' = pending_num (snd (msg_queue_add msg s))"
    and "queue_frames s' = queue_frames (snd (msg_queue_add msg s))"
proof -
  show q: "pkt_queue s' = pkt_queue (snd (msg_queue_add msg s))"
    using assms
    by (auto simp: thread_snd_def msg_queue_send_def send_with_retries_def Let_def
        split: if_splits sum.splits)
  show p: "pending_num s' = pending_num (snd (msg_queue_add msg s))"
    using assms
    by (auto simp: thread_snd_def msg_queue_send_def send_with_retries_def Let_def
        split: if_splits sum.splits)
  show "queue_frames s' = queue_frames (snd (msg_queue_add msg s))"
    by (simp add: queue_frames_def q p)
qed

lemma thread_snd_returns:
  "get_state e = Some st \<Longrightarrow> \<exists>s'. thread_snd e msg s = Inr s'"
  by (simp add: thread_snd_def radio_free_def is_receiving_def Let_def)

text \<open>
  C4, as the code has it. With fewer than \<^verbatim>\<open>NETDEV2_PKT_QUEUE_SIZE\<close> packets queued,
  \<^verbatim>\<open>msg_queue_add\<close> stores the message behind the last one and returns 1; with the queue
  full it changes nothing, releases nothing and returns 0. The value goes to the SND
  branch of the MAC thread and no further. Handling a SND message that finds room leaves
  the packet queued behind the others; handling one that finds the queue full leaves the
  queue as it was; in both cases the thread replies nothing to the sender and releases no
  packet, and it returns whenever the driver answers the state request.
\<close>

theorem msg_queue_add_result:
  "(unat (pending_num s) < NETDEV2_PKT_QUEUE_SIZE \<longrightarrow>
      msg_queue_add msg s =
        (1, s\<lparr>pkt_queue := (pkt_queue s)(unat (pending_num s) := msg),
              pending_num := pending_num s + 1\<rparr>) \<and>
      queue_frames (snd (msg_queue_add msg s)) = queue_frames s @ [content_ptr msg]) \<and>
   (NETDEV2_PKT_QUEUE_SIZE \<le> unat (pending_num s) \<longrightarrow> msg_queue_add msg s = (0, s)) \<and>
   (\<forall>e s'. gnrc_netdev2_duty_thread c e (GNRC_NETAPI_MSG_TYPE_SND msg) s = Inr s' \<longrightarrow>
      replies s' = replies s \<and> released s' = released s \<and>
      (unat (pending_num s) < NETDEV2_PKT_QUEUE_SIZE \<longrightarrow>
         queue_frames s' = queue_frames s @ [content_ptr msg] \<and>
         pkt_queue s' = (pkt_queue s)(unat (pending_num s) := msg) \<and>
         pending_num s' = pending_num s + 1) \<and>
      (NETDEV2_PKT_QUEUE_SIZE \<le> unat (pending_num s) \<longrightarrow>
         queue_frames s' = queue_frames s \<and> pkt_queue s' = pkt_queue s \<and>
         pending_num s' = pending_num s)) \<and>
   (\<forall>e st. get_state e = Some st \<longrightarrow>
      (\<exists>s'. gnrc_netdev2_duty_thread c e (GNRC_NETAPI_MSG_TYPE_SND msg) s = Inr s'))"
proof -
  have a: "unat (pending_num s) < NETDEV2_PKT_QUEUE_SIZE \<Longrightarrow>
      msg_queue_add msg s =
        (1, s\<lparr>pkt_queue := (pkt_queue s)(unat (pending_num s) := msg),
              pending_num := pending_num s + 1\<rparr>)"
    by (simp add: msg_queue_add_def msg_t_update_all)
  have b: "NETDEV2_PKT_QUEUE_SIZE \<le> unat (pending_num s) \<Longrightarrow> msg_queue_add msg s = (0, s)"
    by (simp add: msg_queue_add_def)
  have t: "gnrc_netdev2_duty_thread c e (GNRC_NETAPI_MSG_TYPE_SND msg) s = thread_snd e msg s"
    for e
    by (simp add: gnrc_netdev2_duty_thread_def)
  have d: "replies s' = replies s \<and> released s' = released s \<and>
      (unat (pending_num s) < NETDEV2_PKT_QUEUE_SIZE \<longrightarrow>
         queue_frames s' = queue_frames s @ [content_ptr msg] \<and>
         pkt_queue s' = (pkt_queue s)(unat (pending_num s) := msg) \<and>
         pending_num s' = pending_num s + 1) \<and>
      (NETDEV2_PKT_QUEUE_SIZE \<le> unat (pending_num s) \<longrightarrow>
         queue_frames s' = queue_frames s \<and> pkt_queue s' = pkt_queue s \<and>
         pending_num s' = pending_num s)"
    if r: "thread_snd e msg s = Inr s'" for e s'
    using thread_snd_logs [OF r] thread_snd_queue [OF r] queue_frames_add [of s msg] a b
    by auto
  show ?thesis
    unfolding t
    using queue_frames_add [of s msg] a b thread_snd_returns [of _ _ msg s] d
    by blast
qed

theorem msg_queue_add_result_witness:
  "unat (pending_num mac_init) < NETDEV2_PKT_QUEUE_SIZE \<and>
   msg_queue_add m1 mac_init =
     (1, mac_init\<lparr>pkt_queue := (pkt_queue mac_init)(0 := m1), pending_num := 1\<rparr>) \<and>
   queue_frames (snd (msg_queue_add m1 mac_init)) = [1] \<and>
   get_state e_idle = Some NETOPT_STATE_IDLE \<and>
   map_sum id queue_frames
     (gnrc_netdev2_duty_thread c0 e_idle (GNRC_NETAPI_MSG_TYPE_SND m1) mac_init) = Inr [1] \<and>
   map_sum id replies
     (gnrc_netdev2_duty_thread c0 e_idle (GNRC_NETAPI_MSG_TYPE_SND m1) mac_init) = Inr [] \<and>
   NETDEV2_PKT_QUEUE_SIZE \<le> unat (pending_num s_full) \<and>
   msg_queue_add m1 s_full = (0, s_full) \<and>
   gnrc_netdev2_duty_thread c0 e_idle (GNRC_NETAPI_MSG_TYPE_SND m1) s_full = Inr s_full \<and>
   replies s_full = []"
  using msg_queue_add_result [of mac_init m1 c0] msg_queue_add_result [of s_full m1 c0]
  by (simp add: s_full_def queue_frames_def upt_conv_Cons input_defs mac_defs)

text \<open>
  The claim as the spec states it fails: a SND message that meets a full queue leaves the
  whole state as it was, the reply log included, so nothing is returned to the sender.
\<close>

theorem snd_on_full_queue_returns_nothing:
  "unat (pending_num s_full) = NETDEV2_PKT_QUEUE_SIZE \<and>
   gnrc_netdev2_duty_thread c0 e_idle (GNRC_NETAPI_MSG_TYPE_SND m1) s_full = Inr s_full"
  by (simp add: s_full_def gnrc_netdev2_duty_thread_def thread_snd_def msg_queue_add_def
      NETDEV2_PKT_QUEUE_SIZE_def mac_init_def)

subsection \<open>Giving up a transmission\<close>

lemma event_tx_noack_final:
  "\<not> retry_send_failed e \<Longrightarrow>
   event_tx_noack e s =
     (if dutycycle_state s = DUTY_INIT then Inr (s\<lparr>radio_busy := False\<rparr>)
      else if dutycycle_state s = DUTY_TX_BEACON then
        Inr (s\<lparr>radio_busy := False, timer := None, dutycycle_state := DUTY_SLEEP,
               mbox := mbox s @ [GNRC_NETDEV2_DUTYCYCLE_MSG_TYPE_EVENT]\<rparr>)
      else if 0 < pending_num s then
        (if dutycycle_state s = DUTY_TX_DATA then
           Inr (s\<lparr>radio_busy := False,
                  mbox := mbox s @ [GNRC_NETDEV2_DUTYCYCLE_MSG_TYPE_REMOVE_QUEUE]\<rparr>)
         else if dutycycle_state s = DUTY_SLEEP then Inl AssertFailed
         else Inr (s\<lparr>radio_busy := False, timer := None,
                     mbox := mbox s @ [GNRC_NETDEV2_DUTYCYCLE_MSG_TYPE_REMOVE_QUEUE]\<rparr>))
      else if dutycycle_state s = DUTY_TX_DATA then
        Inr (s\<lparr>radio_busy := False,
               mbox := mbox s @ [GNRC_NETDEV2_DUTYCYCLE_MSG_TYPE_EVENT]\<rparr>)
      else Inr (s\<lparr>radio_busy := False\<rparr>))"
  by (simp add: event_tx_noack_def Let_def msg_send_def xtimer_remove_def)

lemma event_tx_complete_modulo_shift:
  "event_tx_complete c s = Inr t \<Longrightarrow>
   t\<lparr>sleep_interval_shift := sleep_interval_shift s\<rparr> =
     (if dutycycle_state s = DUTY_INIT then s\<lparr>radio_busy := False\<rparr>
      else if dutycycle_state s = DUTY_TX_BEACON then
        s\<lparr>radio_busy := False, timer := None, dutycycle_state := DUTY_SLEEP,
          mbox := mbox s @ [GNRC_NETDEV2_DUTYCYCLE_MSG_TYPE_EVENT]\<rparr>
      else if 0 < pending_num s then
        (if dutycycle_state s = DUTY_TX_DATA then
           s\<lparr>radio_busy := False,
             mbox := mbox s @ [GNRC_NETDEV2_DUTYCYCLE_MSG_TYPE_REMOVE_QUEUE]\<rparr>
         else s\<lparr>radio_busy := False, timer := None,
                mbox := mbox s @ [GNRC_NETDEV2_DUTYCYCLE_MSG_TYPE_REMOVE_QUEUE]\<rparr>)
      else if dutycycle_state s = DUTY_TX_DATA then
        s\<lparr>radio_busy := False, mbox := mbox s @ [GNRC_NETDEV2_DUTYCYCLE_MSG_TYPE_EVENT]\<rparr>
      else s\<lparr>radio_busy := False\<rparr>) \<and>
   \<not> (dutycycle_state s = DUTY_SLEEP \<and> 0 < pending_num s)"
  by (auto simp: event_tx_complete_def Let_def msg_send_def xtimer_remove_def
      reset_sleep_interval_def backoff_sleep_interval_def
      split: if_splits sum.splits)

text \<open>
  C6, as the code has it. A transmission is given up on \<^verbatim>\<open>NETDEV2_EVENT_TX_NOACK\<close> when
  \<^verbatim>\<open>retry_send_failed()\<close> returns false, and on \<^verbatim>\<open>NETDEV2_EVENT_TX_MEDIUM_BUSY\<close> when
  \<^verbatim>\<open>csma_send_failed()\<close> and then \<^verbatim>\<open>retry_send_failed()\<close> both return false. The callback
  then clears \<^verbatim>\<open>radio_busy\<close> and ends in the state that \<^verbatim>\<open>NETDEV2_EVENT_TX_COMPLETE\<close> ends
  in, but for the sleep shift, which it leaves alone: from \<^verbatim>\<open>DUTY_TX_BEACON\<close> it goes to
  \<^verbatim>\<open>DUTY_SLEEP\<close> with the timer removed and an EVENT message; from any state but
  \<^verbatim>\<open>DUTY_INIT\<close>, \<^verbatim>\<open>DUTY_TX_BEACON\<close> and \<^verbatim>\<open>DUTY_SLEEP\<close> with a packet queued it sends
  REMOVE\_QUEUE and keeps the state. Nothing is released in the callback and the queue is
  untouched. In \<^verbatim>\<open>DUTY_SLEEP\<close> with a packet queued the assertion of the branch fails, as
  it does on \<^verbatim>\<open>NETDEV2_EVENT_TX_COMPLETE\<close>, and in no other state.
\<close>

theorem terminal_tx_failure:
  assumes "ev = NETDEV2_EVENT_TX_NOACK \<or>
           ev = NETDEV2_EVENT_TX_MEDIUM_BUSY \<and> \<not> csma_send_failed e"
      and "\<not> retry_send_failed e"
  shows "(\<forall>t. event_cb c e NETDEV2_EVENT_TX_COMPLETE s = Inr t \<longrightarrow>
            event_cb c e ev s = Inr (t\<lparr>sleep_interval_shift := sleep_interval_shift s\<rparr>)) \<and>
         (\<forall>s'. event_cb c e ev s = Inr s' \<longrightarrow>
            \<not> radio_busy s' \<and>
            sleep_interval_shift s' = sleep_interval_shift s \<and>
            released s' = released s \<and> pkt_queue s' = pkt_queue s \<and>
            pending_num s' = pending_num s \<and>
            (dutycycle_state s = DUTY_TX_BEACON \<longrightarrow>
               dutycycle_state s' = DUTY_SLEEP \<and> timer s' = None \<and>
               mbox s' = mbox s @ [GNRC_NETDEV2_DUTYCYCLE_MSG_TYPE_EVENT]) \<and>
            (dutycycle_state s \<noteq> DUTY_INIT \<and> dutycycle_state s \<noteq> DUTY_TX_BEACON \<and>
             0 < pending_num s \<longrightarrow>
               dutycycle_state s' = dutycycle_state s \<and>
               mbox s' = mbox s @ [GNRC_NETDEV2_DUTYCYCLE_MSG_TYPE_REMOVE_QUEUE])) \<and>
         ((\<exists>s'. event_cb c e ev s = Inr s') =
            (\<not> (dutycycle_state s = DUTY_SLEEP \<and> 0 < pending_num s))) \<and>
         (dutycycle_state s = DUTY_SLEEP \<and> 0 < pending_num s \<longrightarrow>
            event_cb c e ev s = Inl AssertFailed \<and>
            event_cb c e NETDEV2_EVENT_TX_COMPLETE s = Inl AssertFailed) \<and>
         (dutycycle_state s = DUTY_TX_BEACON \<longrightarrow>
            event_cb c e ev s =
              Inr (s\<lparr>radio_busy := False, timer := None, dutycycle_state := DUTY_SLEEP,
                     mbox := mbox s @ [GNRC_NETDEV2_DUTYCYCLE_MSG_TYPE_EVENT]\<rparr>)) \<and>
         (dutycycle_state s \<noteq> DUTY_INIT \<and> dutycycle_state s \<noteq> DUTY_TX_BEACON \<and>
          dutycycle_state s \<noteq> DUTY_SLEEP \<and> 0 < pending_num s \<longrightarrow>
            event_cb c e ev s =
              Inr (s\<lparr>radio_busy := False,
                     timer := (if dutycycle_state s = DUTY_TX_DATA then timer s else None),
                     mbox := mbox s @ [GNRC_NETDEV2_DUTYCYCLE_MSG_TYPE_REMOVE_QUEUE]\<rparr>))"
proof -
  have F: "event_cb c e ev s = event_tx_noack e s"
    using assms(1) by (auto simp: event_cb_def)
  have T: "event_cb c e NETDEV2_EVENT_TX_COMPLETE s = event_tx_complete c s"
    by (simp add: event_cb_def)
  have A: "dutycycle_state s = DUTY_SLEEP \<Longrightarrow> 0 < pending_num s \<Longrightarrow>
      event_tx_complete c s = Inl AssertFailed"
    by (simp add: event_tx_complete_def Let_def reset_sleep_interval_def)
  show ?thesis
    unfolding F T event_tx_noack_final [OF assms(2)]
    using A
    by (auto dest!: event_tx_complete_modulo_shift split: if_splits)
qed

theorem terminal_tx_failure_witness:
  "\<not> csma_send_failed ev0 \<and> \<not> retry_send_failed ev0 \<and>
   event_cb c0 ev0 NETDEV2_EVENT_TX_MEDIUM_BUSY s_tx =
     Inr (s_tx\<lparr>radio_busy := False,
               mbox := [GNRC_NETDEV2_DUTYCYCLE_MSG_TYPE_REMOVE_QUEUE]\<rparr>) \<and>
   event_cb c0 ev0 NETDEV2_EVENT_TX_COMPLETE s_tx =
     Inr (s_tx\<lparr>radio_busy := False, sleep_interval_shift := 0,
               mbox := [GNRC_NETDEV2_DUTYCYCLE_MSG_TYPE_REMOVE_QUEUE]\<rparr>)"
  using terminal_tx_failure [of NETDEV2_EVENT_TX_MEDIUM_BUSY ev0 c0 s_tx]
  by (simp add: ev0_def s_tx_def event_cb_def event_tx_noack_def event_tx_complete_def
      mac_init_def msg_send_def reset_sleep_interval_def Let_def)

text \<open>
  The claim as the spec states it fails: after \<^verbatim>\<open>NETDEV2_EVENT_TX_MEDIUM_BUSY\<close> with
  \<^verbatim>\<open>csma_send_failed()\<close> false the retry layer is still asked, and when it tries again
  the callback changes nothing: \<^verbatim>\<open>radio_busy\<close> stays set.
\<close>

theorem medium_busy_retried_keeps_radio_busy:
  "\<not> csma_send_failed ev_retry \<and> radio_busy s_tx \<and>
   event_cb c0 ev_retry NETDEV2_EVENT_TX_MEDIUM_BUSY s_tx = Inr s_tx"
  by (simp add: ev_retry_def s_tx_def event_cb_def event_tx_noack_def)

subsection \<open>Dropping the head of the queue\<close>

lemma queue_shift_fifo:
  "n < NETDEV2_PKT_QUEUE_SIZE \<Longrightarrow>
   (\<forall>j. i \<le> j \<and> j + 1 < n \<longrightarrow> sender_pid (q (j + 1)) \<noteq> 0 \<or> type (q (j + 1)) \<noteq> 0) \<Longrightarrow>
   queue_shift i n q = Inr (\<lambda>j. if i \<le> j \<and> j < n then q (j + 1) else q j)"
proof (induction "n - i" arbitrary: i q)
  case 0
  then have "\<not> i < n" by simp
  then show ?case by (subst queue_shift_unfold) (auto simp: fun_eq_iff)
next
  case (Suc k)
  then have lt: "i < n" and nb: "\<not> NETDEV2_PKT_QUEUE_SIZE \<le> i + 1" by simp_all
  let ?q' = "q(i := q (i + 1))"
  show ?case
  proof (cases "sender_pid (q (i + 1)) = 0 \<and> type (q (i + 1)) = 0")
    case True
    with Suc.prems(2) lt have "i + 1 = n"
      by (metis Suc_eq_plus1 Suc_lessI order_refl)
    with True nb lt show ?thesis
      by (subst queue_shift_unfold) (auto simp: fun_eq_iff)
  next
    case False
    have k: "k = n - (i + 1)" using Suc.hyps(2) by simp
    have p: "\<forall>j. i + 1 \<le> j \<and> j + 1 < n \<longrightarrow>
        sender_pid (?q' (j + 1)) \<noteq> 0 \<or> type (?q' (j + 1)) \<noteq> 0"
      using Suc.prems(2) by simp
    have "queue_shift (i + 1) n ?q' =
            Inr (\<lambda>j. if i + 1 \<le> j \<and> j < n then ?q' (j + 1) else ?q' j)"
      by (rule Suc.hyps(1) [OF k Suc.prems(1) p])
    also have "(\<lambda>j. if i + 1 \<le> j \<and> j < n then ?q' (j + 1) else ?q' j) =
               (\<lambda>j. if i \<le> j \<and> j < n then q (j + 1) else q j)"
      using lt by (auto simp: fun_eq_iff)
    finally have r: "queue_shift (i + 1) n ?q' =
        Inr (\<lambda>j. if i \<le> j \<and> j < n then q (j + 1) else q j)" .
    have step: "queue_shift i n q = queue_shift (i + 1) n ?q'"
      by (subst queue_shift_unfold) (simp only: lt nb False if_True if_False)
    show ?thesis unfolding step by (rule r)
  qed
qed

lemma msg_queue_remove_head_fifo:
  assumes n: "0 < unat (pending_num s)" "unat (pending_num s) \<le> NETDEV2_PKT_QUEUE_SIZE"
    and nz: "\<forall>i < unat (pending_num s).
               sender_pid (pkt_queue s i) \<noteq> 0 \<or> type (pkt_queue s i) \<noteq> 0"
  shows "msg_queue_remove_head s = Inr (head_dropped s)"
    and "queue_frames (head_dropped s) = tl (queue_frames s)"
    and "hd (queue_frames s) = content_ptr (pkt_queue s 0)"
    and "unat (pending_num s - 1) = unat (pending_num s) - 1"
proof -
  let ?n = "unat (pending_num s)"
  show u: "unat (pending_num s - 1) = ?n - 1"
    using n(1) by (simp add: unat_sub word_le_nat_alt)
  have lt: "?n - 1 < NETDEV2_PKT_QUEUE_SIZE" using n by simp
  have nz': "\<forall>j. 0 \<le> j \<and> j + 1 < ?n - 1 \<longrightarrow>
      sender_pid (pkt_queue s (j + 1)) \<noteq> 0 \<or> type (pkt_queue s (j + 1)) \<noteq> 0"
    using nz by simp
  have qs: "queue_shift 0 (?n - 1) (pkt_queue s) =
      Inr (\<lambda>j. if j < ?n - 1 then pkt_queue s (j + 1) else pkt_queue s j)"
    using queue_shift_fifo [OF lt nz'] by simp
  show "hd (queue_frames s) = content_ptr (pkt_queue s 0)"
    using n(1) by (simp add: queue_frames_def hd_map upt_conv_Cons)
  show "msg_queue_remove_head s = Inr (head_dropped s)"
    using qs u
    by (simp add: msg_queue_remove_head_def Let_def gnrc_pktbuf_release_def head_dropped_def)
  show "queue_frames (head_dropped s) = tl (queue_frames s)"
    using u
    by (auto simp: head_dropped_def queue_frames_def list_eq_iff_nth_eq nth_tl less_diff_conv)
qed

text \<open>
  C7, as the code has it. The queue holds between 1 and \<^verbatim>\<open>NETDEV2_PKT_QUEUE_SIZE\<close>
  messages, none of them with sender and type both 0, and the driver answers the state
  request with \<open>st\<close>. Then the REMOVE\_QUEUE branch releases the head's packet and leaves
  the other packets in their order. If packets remain, the new head is submitted when
  \<^verbatim>\<open>radio_busy\<close> and \<^verbatim>\<open>irq_pending\<close> are clear and the radio is not receiving, and nothing
  is submitted otherwise. If the queue became empty in \<^verbatim>\<open>DUTY_TX_DATA_BEFORE_BEACON\<close>, the
  state becomes \<^verbatim>\<open>DUTY_TX_BEACON\<close>, and the beacon is submitted under the same three
  conditions and recorded in \<^verbatim>\<open>beacon_pending\<close> otherwise. If it became empty in
  \<^verbatim>\<open>DUTY_TX_DATA\<close>, the state becomes \<^verbatim>\<open>DUTY_SLEEP\<close> and the driver is set to sleep.
\<close>

theorem thread_remove_queue_result:
  assumes n: "0 < unat (pending_num s)" "unat (pending_num s) \<le> NETDEV2_PKT_QUEUE_SIZE"
    and nz: "\<forall>i < unat (pending_num s).
               sender_pid (pkt_queue s i) \<noteq> 0 \<or> type (pkt_queue s i) \<noteq> 0"
    and st: "get_state e = Some st"
  shows "\<exists>s'. gnrc_netdev2_duty_thread c e GNRC_NETDEV2_DUTYCYCLE_MSG_TYPE_REMOVE_QUEUE s
                = Inr s' \<and>
     released s' = released s @ [hd (queue_frames s)] \<and>
     queue_frames s' = tl (queue_frames s) \<and>
     (if queue_frames s' \<noteq> [] then
        dutycycle_state s' = dutycycle_state s \<and>
        (if \<not> radio_busy s \<and> \<not> irq_pending s \<and> st \<noteq> NETOPT_STATE_RX
         then submitted s' = submitted s @ [hd (queue_frames s')] \<and> radio_busy s' \<and>
              \<not> sending_beacon s'
         else submitted s' = submitted s \<and> radio_busy s' = radio_busy s)
      else if dutycycle_state s = DUTY_TX_DATA_BEFORE_BEACON then
        dutycycle_state s' = DUTY_TX_BEACON \<and>
        (if \<not> radio_busy s \<and> \<not> irq_pending s \<and> st \<noteq> NETOPT_STATE_RX
         then submitted s' = submitted s @ [NULL] \<and> radio_busy s' \<and> sending_beacon s' \<and>
              beacon_pending s' = beacon_pending s
         else submitted s' = submitted s \<and> radio_busy s' = radio_busy s \<and>
              beacon_pending s')
      else if dutycycle_state s = DUTY_TX_DATA then
        dutycycle_state s' = DUTY_SLEEP \<and> submitted s' = submitted s \<and>
        driver_sets s' = driver_sets s @ [SET_STATE NETOPT_STATE_SLEEP]
      else dutycycle_state s' = dutycycle_state s \<and> submitted s' = submitted s)"
proof -
  note f = msg_queue_remove_head_fifo [OF n nz]
  have fields: "radio_busy (head_dropped s) = radio_busy s"
    "irq_pending (head_dropped s) = irq_pending s"
    "dutycycle_state (head_dropped s) = dutycycle_state s"
    "submitted (head_dropped s) = submitted s"
    "released (head_dropped s) = released s @ [hd (queue_frames s)]"
    "pending_num (head_dropped s) = pending_num s - 1"
    "beacon_pending (head_dropped s) = beacon_pending s"
    "driver_sets (head_dropped s) = driver_sets s"
    by (simp_all add: head_dropped_def f(3))
  have e: "(queue_frames (head_dropped s) = []) = (pending_num s - 1 = 0)"
    "([] = queue_frames (head_dropped s)) = (pending_num s - 1 = 0)"
    by (auto simp: queue_frames_def fields unat_eq_0)
  have h: "pending_num s - 1 \<noteq> 0 \<Longrightarrow>
      hd (queue_frames (head_dropped s)) = content_ptr (pkt_queue (head_dropped s) 0)"
    by (simp add: queue_frames_def fields hd_map upt_conv_Cons unat_gt_0)
  have qf [simp]: "\<And>t x. queue_frames (t\<lparr>dutycycle_state := x\<rparr>) = queue_frames t"
    "\<And>t x. queue_frames (t\<lparr>beacon_pending := x\<rparr>) = queue_frames t"
    "\<And>t x. queue_frames (t\<lparr>radio_busy := x\<rparr>) = queue_frames t"
    "\<And>t x. queue_frames (t\<lparr>sending_beacon := x\<rparr>) = queue_frames t"
    "\<And>t x. queue_frames (t\<lparr>submitted := x\<rparr>) = queue_frames t"
    "\<And>t x. queue_frames (t\<lparr>driver_sets := x\<rparr>) = queue_frames t"
    by (simp_all add: queue_frames_def)
  show ?thesis
  proof (cases "pending_num s - 1 = 0")
    case True
    then show ?thesis
      by (simp add: gnrc_netdev2_duty_thread_def thread_remove_queue_def f(1) f(2) [symmetric]
          fields e send_beacon_safely_def is_receiving_def st
          send_with_retries_def driver_set_call_def)
  next
    case False
    then show ?thesis
      by (simp add: gnrc_netdev2_duty_thread_def thread_remove_queue_def f(1) f(2) [symmetric]
          fields e h radio_free_def is_receiving_def st
          msg_queue_send_def send_with_retries_def)
  qed
qed

theorem thread_remove_queue_result_witness:
  "0 < unat (pending_num s_two) \<and> unat (pending_num s_two) \<le> NETDEV2_PKT_QUEUE_SIZE \<and>
   type (pkt_queue s_two 0) = 514 \<and> type (pkt_queue s_two 1) = 514 \<and>
   get_state e_idle = Some NETOPT_STATE_IDLE \<and> queue_frames s_two = [1, 2] \<and>
   (\<exists>s'. gnrc_netdev2_duty_thread c0 e_idle GNRC_NETDEV2_DUTYCYCLE_MSG_TYPE_REMOVE_QUEUE s_two
            = Inr s' \<and>
      released s' = [1] \<and> queue_frames s' = [2] \<and> submitted s' = [1, 2] \<and>
      radio_busy s' \<and> dutycycle_state s' = DUTY_TX_DATA)"
proof -
  have q: "queue_frames s_two = [1, 2]"
    by (simp add: queue_frames_def s_two_def m1_def m2_def mac_init_def upt_conv_Cons)
  have n: "0 < unat (pending_num s_two)" "unat (pending_num s_two) \<le> NETDEV2_PKT_QUEUE_SIZE"
    by (simp_all add: s_two_def NETDEV2_PKT_QUEUE_SIZE_def)
  have pn: "unat (pending_num s_two) = 2" by (simp add: s_two_def)
  have nz: "\<forall>i < unat (pending_num s_two).
      sender_pid (pkt_queue s_two i) \<noteq> 0 \<or> type (pkt_queue s_two i) \<noteq> 0"
    unfolding pn
  proof (intro allI impI)
    fix i :: nat
    assume "i < 2"
    then have "i = 0 \<or> i = 1" by auto
    then show "sender_pid (pkt_queue s_two i) \<noteq> 0 \<or> type (pkt_queue s_two i) \<noteq> 0"
      by (auto simp: s_two_def m1_def m2_def)
  qed
  have st: "get_state e_idle = Some NETOPT_STATE_IDLE" by (simp add: e_idle_def)
  have t: "type (pkt_queue s_two 0) = 514" "type (pkt_queue s_two 1) = 514"
    by (simp_all add: s_two_def m1_def m2_def)
  have f: "\<not> radio_busy s_two" "\<not> irq_pending s_two" "submitted s_two = [1]"
    "released s_two = []" "dutycycle_state s_two = DUTY_TX_DATA"
    by (simp_all add: s_two_def mac_init_def)
  from thread_remove_queue_result [OF n nz st, of c0]
  show ?thesis using n t st q f by auto
qed

text \<open>
  The claim as the spec states it fails where it has the beacon launched whenever the
  queue empties in \<^verbatim>\<open>DUTY_TX_DATA_BEFORE_BEACON\<close>: with the radio's interrupt pending, the
  state becomes \<^verbatim>\<open>DUTY_TX_BEACON\<close> but nothing is submitted; the beacon is only recorded
  as pending.
\<close>

theorem remove_queue_defers_beacon:
  "map_sum id dutycycle_state (run c0 last_frame_sent mac_init)
     = Inr DUTY_TX_DATA_BEFORE_BEACON \<and>
   map_sum id queue_frames (run c0 last_frame_sent mac_init) = Inr [1] \<and>
   map_sum id submitted (run c0 last_frame_sent mac_init) = Inr [1] \<and>
   map_sum id irq_pending (run c0 last_frame_sent mac_init) = Inr True \<and>
   map_sum id dutycycle_state
     (run c0 (last_frame_sent @ [RECEIVE GNRC_NETDEV2_DUTYCYCLE_MSG_TYPE_REMOVE_QUEUE e_idle])
        mac_init) = Inr DUTY_TX_BEACON \<and>
   map_sum id submitted
     (run c0 (last_frame_sent @ [RECEIVE GNRC_NETDEV2_DUTYCYCLE_MSG_TYPE_REMOVE_QUEUE e_idle])
        mac_init) = Inr [1] \<and>
   map_sum id beacon_pending
     (run c0 (last_frame_sent @ [RECEIVE GNRC_NETDEV2_DUTYCYCLE_MSG_TYPE_REMOVE_QUEUE e_idle])
        mac_init) = Inr True"
  by (simp add: last_frame_sent_def queue_frames_def input_defs mac_defs)

subsection \<open>The sleep shift\<close>

lemma unat_push_bit_small:
  "unat (x :: uint32_t) * 2 ^ n < 2 ^ 32 \<Longrightarrow> unat (push_bit n x) = unat x * 2 ^ n"
  by (subst unsigned_push_bit_eq) (simp add: push_bit_eq_mult take_bit_nat_eq_self)

lemma double_no_overflow:
  fixes x :: uint32_t
  assumes "x \<le> push_bit 1 x"
  shows "2 * unat x < 2 ^ 32"
proof (rule ccontr)
  assume "\<not> 2 * unat x < 2 ^ 32"
  then have ge: "2 ^ 32 \<le> 2 * unat x" by simp
  have lt: "unat x < 2 ^ 32" using unsigned_less [of x] by simp
  have "unat (push_bit 1 x) = (2 * unat x) mod 2 ^ 32"
    by (subst unsigned_push_bit_eq) (simp add: push_bit_eq_mult take_bit_eq_mod mult.commute)
  also have "\<dots> = 2 * unat x - 2 ^ 32"
    using ge lt by (simp add: mod_if le_mod_geq)
  also have "\<dots> < unat x" using lt ge by simp
  finally show False using assms by (simp add: word_le_nat_alt)
qed

lemma backoff_shift:
  assumes "backoff_sleep_interval c s = Inr s'"
  shows "s' = s \<or>
         (s' = s\<lparr>sleep_interval_shift := sleep_interval_shift s + 1\<rparr> \<and>
          unat (sleep_interval_shift s) < 32 \<and>
          push_bit (unat (sleep_interval_shift s)) (DUTYCYCLE_SLEEP_INTERVAL_MIN c)
            < DUTYCYCLE_SLEEP_INTERVAL_MAX c \<and>
          push_bit (unat (sleep_interval_shift s)) (DUTYCYCLE_SLEEP_INTERVAL_MIN c)
            \<le> push_bit 1
                 (push_bit (unat (sleep_interval_shift s)) (DUTYCYCLE_SLEEP_INTERVAL_MIN c)))"
  using assms
  by (auto simp: backoff_sleep_interval_def shift_left_def split: if_splits)

lemma sleep_shift_ok_backoff:
  assumes "sleep_shift_ok c (sleep_interval_shift s)" "backoff_sleep_interval c s = Inr s'"
  shows "sleep_shift_ok c (sleep_interval_shift s')"
proof -
  let ?k = "sleep_interval_shift s"
  let ?m = "DUTYCYCLE_SLEEP_INTERVAL_MIN c"
  from backoff_shift [OF assms(2)] show ?thesis
  proof
    assume "s' = s" with assms(1) show ?thesis by simp
  next
    assume a: "s' = s\<lparr>sleep_interval_shift := ?k + 1\<rparr> \<and> unat ?k < 32 \<and>
          push_bit (unat ?k) ?m < DUTYCYCLE_SLEEP_INTERVAL_MAX c \<and>
          push_bit (unat ?k) ?m \<le> push_bit 1 (push_bit (unat ?k) ?m)"
    have small: "unat ?m * 2 ^ unat ?k < 2 ^ 32"
      using assms(1) by (simp add: sleep_shift_ok_def)
    have u: "unat (push_bit (unat ?k) ?m) = unat ?m * 2 ^ unat ?k"
      by (rule unat_push_bit_small [OF small])
    have k1: "unat (?k + 1) = unat ?k + 1"
      using a by (simp add: unat_word_ariths)
    have "2 * unat (push_bit (unat ?k) ?m) < 2 ^ 32"
      using a by (intro double_no_overflow) simp
    then have 1: "unat ?m * 2 ^ (unat ?k + 1) < 2 ^ 32" using u by (simp add: mult.commute)
    have 2: "unat ?m * 2 ^ unat ?k < unat (DUTYCYCLE_SLEEP_INTERVAL_MAX c)"
      using a u by (simp add: word_less_nat_alt)
    show ?thesis using a 1 2 k1 by (simp add: sleep_shift_ok_def)
  qed
qed

lemma sleep_shift_ok_0: "sleep_shift_ok c 0"
  using unsigned_less [of "DUTYCYCLE_SLEEP_INTERVAL_MIN c", where 'a = nat]
  by (simp add: sleep_shift_ok_def)

lemma event_rx_complete_shift:
  "event_rx_complete c e s = Inr s' \<Longrightarrow> sleep_interval_shift s' = sleep_interval_shift s"
  by (auto simp: event_rx_complete_def Let_def xtimer_remove_def xtimer_set_def msg_send_def
      pass_on_packet_def gnrc_pktbuf_release_def split: if_splits sum.splits)

lemma event_tx_noack_shift:
  "event_tx_noack e s = Inr s' \<Longrightarrow> sleep_interval_shift s' = sleep_interval_shift s"
  by (auto simp: event_tx_noack_def Let_def xtimer_remove_def msg_send_def split: if_splits)

lemma event_tx_complete_shift:
  assumes "event_tx_complete c s = Inr s'"
  shows "sleep_interval_shift s' = sleep_interval_shift s \<or> sleep_interval_shift s' = 0 \<or>
     (dutycycle_state s = DUTY_TX_BEACON \<and>
      (\<exists>t. backoff_sleep_interval c (xtimer_remove (s\<lparr>radio_busy := False\<rparr>)) = Inr t \<and>
           sleep_interval_shift s' = sleep_interval_shift t))"
  using assms
  by (auto simp: event_tx_complete_def Let_def msg_send_def reset_sleep_interval_def
      xtimer_remove_def split: if_splits sum.splits)

lemma event_cb_shift:
  assumes "event_cb c e ev s = Inr s'"
  shows "sleep_interval_shift s' = sleep_interval_shift s \<or> sleep_interval_shift s' = 0 \<or>
     (ev = NETDEV2_EVENT_TX_COMPLETE \<and> dutycycle_state s = DUTY_TX_BEACON \<and>
      (\<exists>t. backoff_sleep_interval c (xtimer_remove (s\<lparr>radio_busy := False\<rparr>)) = Inr t \<and>
           sleep_interval_shift s' = sleep_interval_shift t))"
proof (cases ev)
  case NETDEV2_EVENT_TX_COMPLETE
  then show ?thesis using assms event_tx_complete_shift [of c s s'] by (simp add: event_cb_def)
next
  case NETDEV2_EVENT_TX_COMPLETE_PENDING
  then show ?thesis using assms
    by (auto simp: event_cb_def event_tx_complete_pending_def Let_def reset_sleep_interval_def
        msg_send_def xtimer_remove_def split: if_splits)
qed (use assms in \<open>auto simp: event_cb_def msg_send_def split: if_splits
       dest: event_rx_complete_shift event_tx_noack_shift\<close>)

lemma backoff_fields:
  "backoff_sleep_interval c (xtimer_remove (s\<lparr>radio_busy := False\<rparr>)) = Inr t \<Longrightarrow>
   \<exists>t'. backoff_sleep_interval c s = Inr t' \<and> sleep_interval_shift t' = sleep_interval_shift t"
  by (auto simp: backoff_sleep_interval_def xtimer_remove_def split: sum.splits if_splits)

lemma event_cb_shift_ok:
  assumes "sleep_shift_ok c (sleep_interval_shift s)" "event_cb c e ev s = Inr s'"
  shows "sleep_shift_ok c (sleep_interval_shift s')"
  using event_cb_shift [OF assms(2)] assms(1)
  by (auto simp: sleep_shift_ok_0 dest!: backoff_fields dest: sleep_shift_ok_backoff)

lemma driver_isr_shift_ok:
  "sleep_shift_ok c (sleep_interval_shift s) \<Longrightarrow> driver_isr c evs s = Inr s' \<Longrightarrow>
   sleep_shift_ok c (sleep_interval_shift s')"
proof (induction evs arbitrary: s)
  case Nil
  then show ?case by simp
next
  case (Cons x evs)
  then show ?case
    by (auto split: sum.splits dest: event_cb_shift_ok)
qed

lemma dutycycle_cb_shift:
  "dutycycle_cb c s = Inr s' \<Longrightarrow> sleep_interval_shift s' = sleep_interval_shift s"
  by (auto simp: dutycycle_cb_def msg_send_def xtimer_set_def
      split: dutycycle_state_t.splits if_splits sum.splits)

lemma send_packet_shift:
  "send_packet p r snt s = Inr s' \<Longrightarrow> sleep_interval_shift s' = sleep_interval_shift s"
  by (auto simp: send_packet_def Let_def msg_send_def split: if_splits)

lemma send_beacon_safely_shift:
  "send_beacon_safely e s = Inr s' \<Longrightarrow> sleep_interval_shift s' = sleep_interval_shift s"
  by (auto simp: send_beacon_safely_def send_with_retries_def split: if_splits sum.splits)

lemma msg_queue_send_shift:
  "sleep_interval_shift (msg_queue_send s) = sleep_interval_shift s"
  by (simp add: msg_queue_send_def send_with_retries_def)

lemma msg_queue_remove_head_shift:
  "msg_queue_remove_head s = Inr s' \<Longrightarrow> sleep_interval_shift s' = sleep_interval_shift s"
  by (auto simp: msg_queue_remove_head_def Let_def gnrc_pktbuf_release_def
      split: if_splits sum.splits)

lemma thread_dutycycle_event_shift:
  "thread_dutycycle_event c e s = Inr s' \<Longrightarrow> sleep_interval_shift s' = sleep_interval_shift s"
  by (auto simp: thread_dutycycle_event_def Let_def xtimer_set_def xtimer_remove_def
      driver_set_call_def msg_queue_send_shift
      split: if_splits sum.splits dutycycle_state_t.splits dest!: send_beacon_safely_shift)

lemma thread_remove_queue_shift:
  "thread_remove_queue e s = Inr s' \<Longrightarrow> sleep_interval_shift s' = sleep_interval_shift s"
  by (auto simp: thread_remove_queue_def driver_set_call_def msg_queue_send_shift
      split: if_splits sum.splits
      dest!: send_beacon_safely_shift msg_queue_remove_head_shift)

lemma thread_check_queue_shift:
  "thread_check_queue e s = Inr s' \<Longrightarrow> sleep_interval_shift s' = sleep_interval_shift s"
  by (auto simp: thread_check_queue_def msg_queue_send_shift split: if_splits sum.splits)

lemma thread_snd_shift:
  "thread_snd e msg s = Inr s' \<Longrightarrow> sleep_interval_shift s' = sleep_interval_shift s"
  by (auto simp: thread_snd_def Let_def msg_queue_add_def msg_queue_send_shift
      split: if_splits sum.splits)

lemma thread_set_shift:
  "sleep_interval_shift (thread_set e opt s) = sleep_interval_shift s"
  by (simp add: thread_set_def Let_def msg_reply_def driver_set_call_def xtimer_set_def
      xtimer_remove_def split: netapi_opt.splits)

lemma after_isr_shift:
  "sleep_interval_shift (after_isr s) = sleep_interval_shift s"
  by (simp add: after_isr_def msg_send_def send_with_retries_def)

lemma thread_link_retransmit_shift:
  "thread_link_retransmit c e p s = Inr s' \<Longrightarrow> sleep_interval_shift s' = sleep_interval_shift s"
  by (auto simp: thread_link_retransmit_def Let_def msg_send_def event_cb_def
      split: if_splits sum.splits dest!: event_tx_noack_shift)

lemma thread_other_shift:
  assumes "gnrc_netdev2_duty_thread c e m s = Inr s'" "m \<noteq> NETDEV2_MSG_TYPE_EVENT"
  shows "sleep_interval_shift s' = sleep_interval_shift s"
  using assms
  by (cases m)
     (auto simp: gnrc_netdev2_duty_thread_def thread_get_def msg_reply_def thread_set_shift
       dest: thread_dutycycle_event_shift thread_remove_queue_shift thread_check_queue_shift
         thread_snd_shift thread_link_retransmit_shift)

lemma thread_netdev_event_split:
  assumes "gnrc_netdev2_duty_thread c e NETDEV2_MSG_TYPE_EVENT s = Inr s'"
  obtains s1 where "driver_isr c (isr_events e) (s\<lparr>irq_pending := False\<rparr>) = Inr s1"
    and "sleep_interval_shift s' = sleep_interval_shift s1"
  using assms
  by (auto simp: gnrc_netdev2_duty_thread_def thread_netdev_event_def after_isr_shift
      split: sum.splits)

lemma thread_shift_ok:
  assumes "sleep_shift_ok c (sleep_interval_shift s)" "gnrc_netdev2_duty_thread c e m s = Inr s'"
  shows "sleep_shift_ok c (sleep_interval_shift s')"
proof (cases "m = NETDEV2_MSG_TYPE_EVENT")
  case True
  with assms(2) obtain s1
    where "driver_isr c (isr_events e) (s\<lparr>irq_pending := False\<rparr>) = Inr s1"
      and "sleep_interval_shift s' = sleep_interval_shift s1"
    by (auto elim: thread_netdev_event_split)
  then show ?thesis
    using driver_isr_shift_ok [of c "s\<lparr>irq_pending := False\<rparr>" "isr_events e" s1] assms(1)
    by simp
next
  case False
  then show ?thesis using assms thread_other_shift by metis
qed

lemma mac_step_other_shift:
  assumes "mac_step c i s = Inr s'" "\<forall>e. i \<noteq> RECEIVE NETDEV2_MSG_TYPE_EVENT e"
  shows "sleep_interval_shift s' = sleep_interval_shift s"
proof (cases i)
  case (RECEIVE m e)
  then show ?thesis using assms thread_other_shift [of c e m s s'] by (auto simp: mac_step_def)
next
  case TICK
  then show ?thesis using assms
    by (auto simp: mac_step_def split: option.splits dest!: dutycycle_cb_shift)
next
  case RADIO_IRQ
  then show ?thesis using assms
    by (auto simp: mac_step_def event_cb_def msg_send_def)
next
  case (SEND_PACKET p r snt)
  then show ?thesis using assms
    by (auto simp: mac_step_def dest!: send_packet_shift)
qed

lemma mac_step_shift_ok:
  assumes "sleep_shift_ok c (sleep_interval_shift s)" "mac_step c i s = Inr s'"
  shows "sleep_shift_ok c (sleep_interval_shift s')"
proof (cases "\<exists>e. i = RECEIVE NETDEV2_MSG_TYPE_EVENT e")
  case True
  then show ?thesis using assms thread_shift_ok by (auto simp: mac_step_def)
next
  case False
  then show ?thesis using assms mac_step_other_shift [of c i s s'] by simp
qed

lemma reachable_shift_ok: "reachable c s \<Longrightarrow> sleep_shift_ok c (sleep_interval_shift s)"
proof (induction rule: reachable.induct)
  case reachable_init
  show ?case by (simp add: mac_init_def sleep_shift_ok_0)
next
  case (reachable_step s i s')
  then show ?case using mac_step_shift_ok by blast
qed

lemma run_two_beacons: "run c0 two_beacons mac_init = Inr s_two_beacons"
  by (simp add: two_beacons_def beacon_cycle_def s_two_beacons_def input_defs mac_defs)

text \<open>
  C5, as the code has it. Let \<open>K\<close> be the exponent with
  \<open>MIN * 2 ^ K \<le> MAX < MIN * 2 ^ (K + 1)\<close>. In every state that a run reaches the sleep
  shift is at most \<open>K + 1\<close>, and at most \<open>K\<close> when \<open>MAX\<close> is exactly \<open>MIN * 2 ^ K\<close>:
  \<^verbatim>\<open>backoff_sleep_interval\<close> increments while the interval is below the maximum, so the
  last increment can take the interval above it (\<^verbatim>\<open>get_sleep_interval\<close> clamps it then).
\<close>

theorem sleep_shift_bound:
  assumes r: "reachable c s"
    and lo: "unat (DUTYCYCLE_SLEEP_INTERVAL_MIN c) * 2 ^ K
               \<le> unat (DUTYCYCLE_SLEEP_INTERVAL_MAX c)"
    and hi: "unat (DUTYCYCLE_SLEEP_INTERVAL_MAX c)
               < unat (DUTYCYCLE_SLEEP_INTERVAL_MIN c) * 2 ^ (K + 1)"
  shows "unat (sleep_interval_shift s) \<le> K + 1 \<and>
         (unat (DUTYCYCLE_SLEEP_INTERVAL_MIN c) * 2 ^ K = unat (DUTYCYCLE_SLEEP_INTERVAL_MAX c)
            \<longrightarrow> unat (sleep_interval_shift s) \<le> K)"
proof (cases "sleep_interval_shift s = 0")
  case True
  then show ?thesis by simp
next
  case False
  let ?m = "unat (DUTYCYCLE_SLEEP_INTERVAL_MIN c)"
  let ?k = "unat (sleep_interval_shift s)"
  have b: "?m * 2 ^ (?k - 1) < unat (DUTYCYCLE_SLEEP_INTERVAL_MAX c)"
    using reachable_shift_ok [OF r] False by (simp add: sleep_shift_ok_def)
  have pos: "0 < ?k" using False by (simp add: unat_gt_0)
  have "?m * 2 ^ (?k - 1) < ?m * 2 ^ (K + 1)" by (rule less_trans [OF b hi])
  then have p: "(2::nat) ^ (?k - 1) < 2 ^ (K + 1)" by simp
  have 1: "?k - 1 < K + 1" by (rule power_less_imp_less_exp [OF _ p]) simp
  have 2: "?k \<le> K" if "?m * 2 ^ K = unat (DUTYCYCLE_SLEEP_INTERVAL_MAX c)"
  proof -
    have "?m * 2 ^ (?k - 1) < ?m * 2 ^ K" unfolding that by (rule b)
    then have q: "(2::nat) ^ (?k - 1) < 2 ^ K" by simp
    have "?k - 1 < K" by (rule power_less_imp_less_exp [OF _ q]) simp
    then show ?thesis using pos by simp
  qed
  show ?thesis using 1 2 pos by auto
qed

theorem sleep_shift_bound_witness:
  "reachable c0 s_two_beacons \<and>
   unat (DUTYCYCLE_SLEEP_INTERVAL_MIN c0) * 2 ^ 1 \<le> unat (DUTYCYCLE_SLEEP_INTERVAL_MAX c0) \<and>
   unat (DUTYCYCLE_SLEEP_INTERVAL_MAX c0) < unat (DUTYCYCLE_SLEEP_INTERVAL_MIN c0) * 2 ^ (1 + 1) \<and>
   unat (sleep_interval_shift s_two_beacons) \<le> 1 + 1"
proof -
  have r: "reachable c0 s_two_beacons"
    by (rule run_reachable [OF reachable_init run_two_beacons])
  have lo: "unat (DUTYCYCLE_SLEEP_INTERVAL_MIN c0) * 2 ^ 1
              \<le> unat (DUTYCYCLE_SLEEP_INTERVAL_MAX c0)"
    by (simp add: c0_def)
  have hi: "unat (DUTYCYCLE_SLEEP_INTERVAL_MAX c0)
              < unat (DUTYCYCLE_SLEEP_INTERVAL_MIN c0) * 2 ^ (1 + 1)"
    by (simp add: c0_def)
  from sleep_shift_bound [OF r lo hi] r lo hi show ?thesis by blast
qed

text \<open>
  The claim as the spec states it fails: with \<open>MIN = 1\<close> and \<open>MAX = 3\<close> the exponent \<open>K\<close>
  is 1, and two wake-ups with an empty queue take the sleep shift to 2.
\<close>

theorem sleep_shift_exceeds_K:
  "unat (DUTYCYCLE_SLEEP_INTERVAL_MIN c0) * 2 ^ 1 \<le> unat (DUTYCYCLE_SLEEP_INTERVAL_MAX c0) \<and>
   unat (DUTYCYCLE_SLEEP_INTERVAL_MAX c0) < unat (DUTYCYCLE_SLEEP_INTERVAL_MIN c0) * 2 ^ (1 + 1) \<and>
   reachable c0 s_two_beacons \<and>
   unat (sleep_interval_shift s_two_beacons) = 2"
proof -
  have "reachable c0 s_two_beacons"
    by (rule run_reachable [OF reachable_init run_two_beacons])
  then show ?thesis by (simp add: c0_def s_two_beacons_def)
qed

lemma driver_isr_without_tx_complete:
  "driver_isr c evs s = Inr s' \<Longrightarrow> NETDEV2_EVENT_TX_COMPLETE \<notin> fst ` set evs \<Longrightarrow>
   sleep_interval_shift s' = sleep_interval_shift s \<or> sleep_interval_shift s' = 0"
proof (induction evs arbitrary: s)
  case Nil
  then show ?case by simp
next
  case (Cons x evs)
  from Cons.prems obtain s1 where s1: "event_cb c (snd x) (fst x) s = Inr s1"
      "driver_isr c evs s1 = Inr s'"
    by (auto split: sum.splits)
  have "fst x \<noteq> NETDEV2_EVENT_TX_COMPLETE" using Cons.prems(2) by auto
  with event_cb_shift [OF s1(1)]
  have a: "sleep_interval_shift s1 = sleep_interval_shift s \<or> sleep_interval_shift s1 = 0"
    by auto
  have "sleep_interval_shift s' = sleep_interval_shift s1 \<or> sleep_interval_shift s' = 0"
    using Cons.IH [OF s1(2)] Cons.prems(2) by auto
  with a show ?case by auto
qed

lemma event_cb_increment:
  assumes "event_cb c e ev s = Inr s'"
    and "sleep_interval_shift s' \<noteq> sleep_interval_shift s" "sleep_interval_shift s' \<noteq> 0"
  shows "ev = NETDEV2_EVENT_TX_COMPLETE \<and> dutycycle_state s = DUTY_TX_BEACON \<and>
         unat (sleep_interval_shift s') = unat (sleep_interval_shift s) + 1 \<and>
         unat (sleep_interval_shift s) < 32 \<and>
         push_bit (unat (sleep_interval_shift s)) (DUTYCYCLE_SLEEP_INTERVAL_MIN c)
           < DUTYCYCLE_SLEEP_INTERVAL_MAX c"
proof -
  from event_cb_shift [OF assms(1)] assms(2,3)
  obtain t where t: "ev = NETDEV2_EVENT_TX_COMPLETE" "dutycycle_state s = DUTY_TX_BEACON"
      "backoff_sleep_interval c (xtimer_remove (s\<lparr>radio_busy := False\<rparr>)) = Inr t"
      "sleep_interval_shift s' = sleep_interval_shift t"
    by auto
  from backoff_fields [OF t(3)] obtain t'
    where t': "backoff_sleep_interval c s = Inr t'"
      "sleep_interval_shift t' = sleep_interval_shift t"
    by auto
  from backoff_shift [OF t'(1)] t'(2) t(4) assms(2)
  have b: "sleep_interval_shift s' = sleep_interval_shift s + 1"
    "unat (sleep_interval_shift s) < 32"
    "push_bit (unat (sleep_interval_shift s)) (DUTYCYCLE_SLEEP_INTERVAL_MIN c)
       < DUTYCYCLE_SLEEP_INTERVAL_MAX c"
    by auto
  have "unat (sleep_interval_shift s + 1) = unat (sleep_interval_shift s) + 1"
    using b(2) by (simp add: unat_word_ariths)
  with t b show ?thesis by simp
qed

lemma mac_step_increment:
  assumes "mac_step c i s = Inr s'"
    and "sleep_interval_shift s' \<noteq> sleep_interval_shift s" "sleep_interval_shift s' \<noteq> 0"
  shows "\<exists>en. i = RECEIVE NETDEV2_MSG_TYPE_EVENT en \<and>
              NETDEV2_EVENT_TX_COMPLETE \<in> fst ` set (isr_events en)"
proof -
  from mac_step_other_shift [OF assms(1)] assms(2)
  obtain en where en: "i = RECEIVE NETDEV2_MSG_TYPE_EVENT en" by auto
  with assms(1) have "gnrc_netdev2_duty_thread c en NETDEV2_MSG_TYPE_EVENT s = Inr s'"
    by (simp add: mac_step_def)
  then obtain s1 where s1: "driver_isr c (isr_events en) (s\<lparr>irq_pending := False\<rparr>) = Inr s1"
      "sleep_interval_shift s' = sleep_interval_shift s1"
    by (auto elim: thread_netdev_event_split)
  have "NETDEV2_EVENT_TX_COMPLETE \<in> fst ` set (isr_events en)"
  proof (rule ccontr)
    assume "NETDEV2_EVENT_TX_COMPLETE \<notin> fst ` set (isr_events en)"
    from driver_isr_without_tx_complete [OF s1(1) this] s1(2) assms(2,3)
    show False by simp
  qed
  with en show ?thesis by blast
qed

lemma event_cb_tx_complete_beacon:
  assumes "dutycycle_state s = DUTY_TX_BEACON" "unat (sleep_interval_shift s) < 32"
    and "push_bit (unat (sleep_interval_shift s)) (DUTYCYCLE_SLEEP_INTERVAL_MIN c)
           < DUTYCYCLE_SLEEP_INTERVAL_MAX c"
    and "push_bit (unat (sleep_interval_shift s)) (DUTYCYCLE_SLEEP_INTERVAL_MIN c)
           \<le> push_bit 1
                (push_bit (unat (sleep_interval_shift s)) (DUTYCYCLE_SLEEP_INTERVAL_MIN c))"
  shows "event_cb c e NETDEV2_EVENT_TX_COMPLETE s =
           Inr (s\<lparr>radio_busy := False, timer := None,
                  sleep_interval_shift := sleep_interval_shift s + 1,
                  dutycycle_state := DUTY_SLEEP,
                  mbox := mbox s @ [GNRC_NETDEV2_DUTYCYCLE_MSG_TYPE_EVENT]\<rparr>)"
  using assms
  by (simp add: event_cb_def event_tx_complete_def backoff_sleep_interval_def shift_left_def
      xtimer_remove_def msg_send_def Let_def)

text \<open>
  C2, as the code has it. An event changes the sleep shift to a value other than 0 only
  if it is \<^verbatim>\<open>NETDEV2_EVENT_TX_COMPLETE\<close> in state \<^verbatim>\<open>DUTY_TX_BEACON\<close> with the interval
  \<^verbatim>\<open>DUTYCYCLE_SLEEP_INTERVAL_MIN << shift\<close> below the maximum, and then the shift grows by
  one. No other step of the system does: not the timer callback, not the radio's
  interrupt, not \<^verbatim>\<open>send_packet\<close>, and no message of the MAC thread other than the one
  that lets the driver raise such an event. The queue plays no part: in \<^verbatim>\<open>DUTY_TX_BEACON\<close>
  with the interval below the maximum (and its double not overflowing) the event
  increments the shift whatever \<^verbatim>\<open>pending_num\<close> is.
\<close>

theorem sleep_shift_increment:
  "(event_cb c e ev s = Inr t1 \<and> sleep_interval_shift t1 \<noteq> sleep_interval_shift s \<and>
    sleep_interval_shift t1 \<noteq> 0 \<longrightarrow>
      ev = NETDEV2_EVENT_TX_COMPLETE \<and> dutycycle_state s = DUTY_TX_BEACON \<and>
      unat (sleep_interval_shift t1) = unat (sleep_interval_shift s) + 1 \<and>
      unat (sleep_interval_shift s) < 32 \<and>
      push_bit (unat (sleep_interval_shift s)) (DUTYCYCLE_SLEEP_INTERVAL_MIN c)
        < DUTYCYCLE_SLEEP_INTERVAL_MAX c) \<and>
   (mac_step c i s = Inr t2 \<and> sleep_interval_shift t2 \<noteq> sleep_interval_shift s \<and>
    sleep_interval_shift t2 \<noteq> 0 \<longrightarrow>
      (\<exists>en. i = RECEIVE NETDEV2_MSG_TYPE_EVENT en \<and>
            NETDEV2_EVENT_TX_COMPLETE \<in> fst ` set (isr_events en))) \<and>
   (dutycycle_state s = DUTY_TX_BEACON \<and> unat (sleep_interval_shift s) < 32 \<and>
    push_bit (unat (sleep_interval_shift s)) (DUTYCYCLE_SLEEP_INTERVAL_MIN c)
      < DUTYCYCLE_SLEEP_INTERVAL_MAX c \<and>
    push_bit (unat (sleep_interval_shift s)) (DUTYCYCLE_SLEEP_INTERVAL_MIN c)
      \<le> push_bit 1 (push_bit (unat (sleep_interval_shift s)) (DUTYCYCLE_SLEEP_INTERVAL_MIN c))
    \<longrightarrow>
      event_cb c e NETDEV2_EVENT_TX_COMPLETE s =
        Inr (s\<lparr>radio_busy := False, timer := None,
               sleep_interval_shift := sleep_interval_shift s + 1,
               dutycycle_state := DUTY_SLEEP,
               mbox := mbox s @ [GNRC_NETDEV2_DUTYCYCLE_MSG_TYPE_EVENT]\<rparr>))"
  using event_cb_increment [of c e ev s t1] mac_step_increment [of c i s t2]
    event_cb_tx_complete_beacon [of s c e]
  by blast

theorem sleep_shift_increment_witness:
  "dutycycle_state s_beacon = DUTY_TX_BEACON \<and> pending_num s_beacon = 1 \<and>
   unat (sleep_interval_shift s_beacon) < 32 \<and>
   push_bit (unat (sleep_interval_shift s_beacon)) (DUTYCYCLE_SLEEP_INTERVAL_MIN c0)
     < DUTYCYCLE_SLEEP_INTERVAL_MAX c0 \<and>
   event_cb c0 ev0 NETDEV2_EVENT_TX_COMPLETE s_beacon =
     Inr (s_beacon\<lparr>radio_busy := False, timer := None, sleep_interval_shift := 1,
                  dutycycle_state := DUTY_SLEEP,
                  mbox := [GNRC_NETDEV2_DUTYCYCLE_MSG_TYPE_EVENT]\<rparr>)"
  using sleep_shift_increment [of c0 ev0 NETDEV2_EVENT_TX_COMPLETE s_beacon
      "s_beacon\<lparr>radio_busy := False, timer := None, sleep_interval_shift := 1,
                 dutycycle_state := DUTY_SLEEP,
                 mbox := [GNRC_NETDEV2_DUTYCYCLE_MSG_TYPE_EVENT]\<rparr>" TICK s_beacon]
  by (simp add: s_beacon_def c0_def mac_init_def)

text \<open>
  The claim as the spec states it fails twice on one run: a packet is queued while the
  second beacon is in the air, and when the beacon is reported complete the shift goes
  from 1 to 2 all the same; and with \<open>MIN = 1\<close>, \<open>MAX = 3\<close> the interval shifted by 2 is 4,
  above the maximum.
\<close>

theorem backoff_with_frame_queued:
  "map_sum id dutycycle_state (run c0 send_during_beacon mac_init) = Inr DUTY_TX_BEACON \<and>
   map_sum id queue_frames (run c0 send_during_beacon mac_init) = Inr [1] \<and>
   map_sum id sleep_interval_shift (run c0 send_during_beacon mac_init) = Inr 1 \<and>
   map_sum id sleep_interval_shift
     (run c0 (send_during_beacon @
              [RADIO_IRQ, RECEIVE NETDEV2_MSG_TYPE_EVENT (e_isr NETDEV2_EVENT_TX_COMPLETE)])
        mac_init) = Inr 2 \<and>
   map_sum id queue_frames
     (run c0 (send_during_beacon @
              [RADIO_IRQ, RECEIVE NETDEV2_MSG_TYPE_EVENT (e_isr NETDEV2_EVENT_TX_COMPLETE)])
        mac_init) = Inr [1] \<and>
   DUTYCYCLE_SLEEP_INTERVAL_MAX c0 < push_bit 2 (DUTYCYCLE_SLEEP_INTERVAL_MIN c0)"
  by (simp add: send_during_beacon_def beacon_cycle_def queue_frames_def input_defs mac_defs)

subsection \<open>Where the code leaves its own rules\<close>

text \<open>
  C1. The claim holds on the paths that test \<^verbatim>\<open>!radio_busy && !irq_pending &&
  !is_receiving(dev)\<close>, but not on two others. In \<^verbatim>\<open>DUTY_INIT\<close> the SND branch calls
  \<^verbatim>\<open>msg_queue_send\<close> without any test: after a first packet has been submitted and the
  radio has raised its interrupt, a second SND arriving while the radio receives submits
  again (and it is the head of the queue, the first packet, that goes out a second
  time). And the relaunch of a pending beacon after the driver's \<^verbatim>\<open>isr\<close> tests
  \<^verbatim>\<open>radio_busy\<close> only: the beacon is submitted while the radio receives.
\<close>

theorem submission_without_policy:
  "map_sum id dutycycle_state (run c0 busy_in_init mac_init) = Inr DUTY_INIT \<and>
   map_sum id radio_busy (run c0 busy_in_init mac_init) = Inr True \<and>
   map_sum id irq_pending (run c0 busy_in_init mac_init) = Inr True \<and>
   map_sum id submitted (run c0 busy_in_init mac_init) = Inr [1] \<and>
   is_receiving e_rx = Inr True \<and>
   map_sum id submitted
     (run c0 (busy_in_init @ [RECEIVE (GNRC_NETAPI_MSG_TYPE_SND m2) e_rx]) mac_init)
     = Inr [1, 1] \<and>
   map_sum id queue_frames
     (run c0 (busy_in_init @ [RECEIVE (GNRC_NETAPI_MSG_TYPE_SND m2) e_rx]) mac_init)
     = Inr [1, 2] \<and>
   map_sum id beacon_pending
     (run c0 (last_frame_sent @ [RECEIVE GNRC_NETDEV2_DUTYCYCLE_MSG_TYPE_REMOVE_QUEUE e_idle])
        mac_init) = Inr True \<and>
   map_sum id submitted
     (run c0 (last_frame_sent @
              [RECEIVE GNRC_NETDEV2_DUTYCYCLE_MSG_TYPE_REMOVE_QUEUE e_idle,
               RECEIVE NETDEV2_MSG_TYPE_EVENT e_rx])
        mac_init) = Inr [1, NULL]"
  by (simp add: busy_in_init_def last_frame_sent_def queue_frames_def upt_conv_Cons
      input_defs mac_defs)

text \<open>
  C3. The claim holds for the transmit events, which test \<^verbatim>\<open>dutycycle_state !=
  DUTY_INIT\<close>, but the \<^verbatim>\<open>NETDEV2_EVENT_RX_COMPLETE\<close> branch has no such test: after
  duty-cycling has been switched off, a received frame moves the state to \<^verbatim>\<open>DUTY_SLEEP\<close>,
  or, with a packet queued, to \<^verbatim>\<open>DUTY_TX_DATA\<close> with the timer set.
\<close>

theorem rx_complete_leaves_init:
  "map_sum id dutycycle_state
     (run c0 [RECEIVE (GNRC_NETAPI_MSG_TYPE_SET (NETOPT_DUTYCYCLE NETOPT_DISABLE)) e_idle]
        mac_init) = Inr DUTY_INIT \<and>
   map_sum id timer
     (run c0 [RECEIVE (GNRC_NETAPI_MSG_TYPE_SET (NETOPT_DUTYCYCLE NETOPT_DISABLE)) e_idle]
        mac_init) = Inr None \<and>
   map_sum id dutycycle_state (run c0 rx_after_disable mac_init) = Inr DUTY_SLEEP \<and>
   map_sum id dutycycle_state (run c0 rx_after_disable_queued mac_init) = Inr DUTY_TX_DATA \<and>
   map_sum id timer (run c0 rx_after_disable_queued mac_init) = Inr (Some 1)"
  by (simp add: rx_after_disable_def rx_after_disable_queued_def input_defs mac_defs)

end
